theory Spec2Isabelle
  imports Main "HOL-Library.Char_ord" "HOL-Library.List_Lexorder" "HOL-Library.Multiset"
begin

section \<open>Strings and the line patterns of \<^verbatim>\<open>docs/generate.py\<close>\<close>

text \<open>
  The script is Python 2: its strings are byte strings, modelled as \<^typ>\<open>string\<close>.
  \<^verbatim>\<open>str.strip()\<close>, \<^verbatim>\<open>\s\<close> and \<^verbatim>\<open>\S\<close> use the six ASCII whitespace bytes,
  \<^verbatim>\<open>\w\<close> is \<^verbatim>\<open>[a-zA-Z0-9_]\<close>, and \<^verbatim>\<open>.\<close> is every byte but the line feed.
\<close>

definition newline :: char where
  "newline = CHR 0x0A"

definition is_space :: "char \<Rightarrow> bool" where
  "is_space c = (c \<in> set [CHR 0x20, CHR 0x09, CHR 0x0A, CHR 0x0B, CHR 0x0C, CHR 0x0D])"

definition is_word :: "char \<Rightarrow> bool" where
  "is_word c =
     (c \<in> set ''abcdefghijklmnopqrstuvwxyzABCDEFGHIJKLMNOPQRSTUVWXYZ0123456789_'')"

definition strip :: "string \<Rightarrow> string" where
  \<comment> \<open>\<^verbatim>\<open>line.strip()\<close>\<close>
  "strip s = rev (dropWhile is_space (rev (dropWhile is_space s)))"

fun join :: "string \<Rightarrow> string list \<Rightarrow> string" where
  \<comment> \<open>\<^verbatim>\<open>sep.join(xs)\<close>\<close>
  "join sep [] = []"
| "join sep [x] = x"
| "join sep (x # y # ys) = x @ sep @ join sep (y # ys)"

definition endswith :: "string \<Rightarrow> string \<Rightarrow> bool" where
  \<comment> \<open>\<^verbatim>\<open>s.endswith(suffix)\<close>\<close>
  "endswith s suffix =
     (length suffix \<le> length s \<and> drop (length s - length suffix) s = suffix)"

subsection \<open>Pieces of a pattern\<close>

definition literal :: "string \<Rightarrow> string \<Rightarrow> string option" where
  \<comment> \<open>a literal at the current position: the rest of the subject behind it\<close>
  "literal p s = (if take (length p) s = p then Some (drop (length p) s) else None)"

definition one_or_more :: "(char \<Rightarrow> bool) \<Rightarrow> string \<Rightarrow> (string \<times> string) option" where
  \<comment> \<open>a greedy \<^verbatim>\<open>C+\<close> over a character class: the longest run and the rest.
      In every pattern below the item behind the run starts with a character outside
      the class (or is the end of the pattern), so no shorter run can match\<close>
  "one_or_more P s = (if takeWhile P s = [] then None else Some (takeWhile P s, dropWhile P s))"

definition dollar :: "string \<Rightarrow> bool" where
  \<comment> \<open>\<^verbatim>\<open>$\<close> without MULTILINE: at the end of the subject, or before a line feed that
      ends the subject\<close>
  "dollar s = (s = [] \<or> s = [newline])"

definition lazy_dots :: "string \<Rightarrow> string \<Rightarrow> string option" where
  \<comment> \<open>\<^verbatim>\<open>(.*?)\<close> followed by a literal and \<^verbatim>\<open>$\<close>: the subject is
      \<open>a @ suffix\<close> or \<open>a @ suffix @ [newline]\<close> with no line feed in \<open>a\<close>;
      the anchor leaves one candidate for \<open>a\<close>\<close>
  "lazy_dots suffix s =
     (let s0 = (if s \<noteq> [] \<and> last s = newline then butlast s else s);
          a = take (length s0 - length suffix) s0
      in if endswith s0 suffix \<and> newline \<notin> set a then Some a else None)"

subsection \<open>The compiled patterns\<close>

definition CODEDOC_RE :: "string \<Rightarrow> string option" where
  \<comment> \<open>\<^verbatim>\<open>^>> (\S+)$\<close> with \<^verbatim>\<open>match\<close>; the result is group 1\<close>
  "CODEDOC_RE s =
     (case literal ''>> '' s of None \<Rightarrow> None
      | Some r \<Rightarrow>
         (case one_or_more (\<lambda>c. \<not> is_space c) r of None \<Rightarrow> None
          | Some (tok, e) \<Rightarrow> if dollar e then Some tok else None))"

definition COMMENT_RE :: "string \<Rightarrow> string option option" where
  \<comment> \<open>\<^verbatim>\<open>^(?://|#)(?: (.*$)|$)\<close> with \<^verbatim>\<open>match\<close>; \<open>Some g\<close> is a match whose
      group 1 is \<open>g\<close> (\<open>None\<close> when the second alternative matched)\<close>
  "COMMENT_RE s =
     (case (case literal ''//'' s of Some r \<Rightarrow> Some r | None \<Rightarrow> literal ''#'' s) of
        None \<Rightarrow> None
      | Some r \<Rightarrow>
         (case literal '' '' r of
            Some t \<Rightarrow>
              if dollar (dropWhile (\<lambda>c. c \<noteq> newline) t)
              then Some (Some (takeWhile (\<lambda>c. c \<noteq> newline) t))
              else if dollar r then Some None else None
          | None \<Rightarrow> if dollar r then Some None else None))"

definition class_tail :: "string \<Rightarrow> string option" where
  \<comment> \<open>\<^verbatim>\<open>class (\w+)\<close>\<close>
  "class_tail s =
     (case literal ''class '' s of None \<Rightarrow> None
      | Some r \<Rightarrow> (case one_or_more is_word r of None \<Rightarrow> None | Some (w, e) \<Rightarrow> Some w))"

definition CLASS_RE :: "string \<Rightarrow> string option" where
  \<comment> \<open>\<^verbatim>\<open>^(?:export )?class (\w+)\<close> with \<^verbatim>\<open>match\<close>\<close>
  "CLASS_RE s =
     (case literal ''export '' s of
        Some r \<Rightarrow> (case class_tail r of Some w \<Rightarrow> Some w | None \<Rightarrow> class_tail s)
      | None \<Rightarrow> class_tail s)"

definition EXPORT_LET_RE :: "string \<Rightarrow> string option" where
  \<comment> \<open>\<^verbatim>\<open>^export let (\w+)\<close> with \<^verbatim>\<open>match\<close>\<close>
  "EXPORT_LET_RE s =
     (case literal ''export let '' s of None \<Rightarrow> None
      | Some r \<Rightarrow> (case one_or_more is_word r of None \<Rightarrow> None | Some (w, e) \<Rightarrow> Some w))"

definition CONSTRUCTOR_RE :: "string \<Rightarrow> string option" where
  \<comment> \<open>\<^verbatim>\<open>^constructor\((.*?)\) \{$\<close> with \<^verbatim>\<open>match\<close>\<close>
  "CONSTRUCTOR_RE s =
     (case literal ''constructor('' s of None \<Rightarrow> None | Some r \<Rightarrow> lazy_dots '') {'' r)"

definition METHOD_RE :: "string \<Rightarrow> string option" where
  \<comment> \<open>\<^verbatim>\<open>^(\w+\(.*?\)) {$\<close> with \<^verbatim>\<open>match\<close>: group 1 runs from the identifier to the
      closing parenthesis\<close>
  "METHOD_RE s =
     (case one_or_more is_word s of None \<Rightarrow> None
      | Some (w, r) \<Rightarrow>
         (case literal ''('' r of None \<Rightarrow> None
          | Some r' \<Rightarrow>
             (case lazy_dots '') {'' r' of None \<Rightarrow> None
              | Some a \<Rightarrow> Some (w @ ''('' @ a @ '')''))))"

definition GETTER_RE :: "string \<Rightarrow> string option" where
  \<comment> \<open>\<^verbatim>\<open>^get (\w+)\(\) {$\<close> with \<^verbatim>\<open>match\<close>\<close>
  "GETTER_RE s =
     (case literal ''get '' s of None \<Rightarrow> None
      | Some r \<Rightarrow>
         (case one_or_more is_word r of None \<Rightarrow> None
          | Some (w, r') \<Rightarrow>
             (case literal ''() {'' r' of None \<Rightarrow> None
              | Some e \<Rightarrow> if dollar e then Some w else None)))"

definition ATTRIBUTE_RE :: "string \<Rightarrow> string option" where
  \<comment> \<open>\<^verbatim>\<open>^this.(\w+)\s*=\<close> with \<^verbatim>\<open>match\<close>; the dot is not escaped and stands for any
      one byte but the line feed\<close>
  "ATTRIBUTE_RE s =
     (case literal ''this'' s of None \<Rightarrow> None
      | Some r \<Rightarrow>
         (case r of [] \<Rightarrow> None
          | c # r' \<Rightarrow>
             if c = newline then None
             else (case one_or_more is_word r' of None \<Rightarrow> None
                   | Some (w, r'') \<Rightarrow>
                      (case dropWhile is_space r'' of [] \<Rightarrow> None
                       | d # e \<Rightarrow> if d = CHR ''='' then Some w else None))))"

definition MODULE_RE_at :: "string \<Rightarrow> string option" where
  \<comment> \<open>\<^verbatim>\<open>src/(.*?)\.js$\<close> tried at the start of the given text\<close>
  "MODULE_RE_at s = (case literal ''src/'' s of None \<Rightarrow> None | Some r \<Rightarrow> lazy_dots ''.js'' r)"

fun MODULE_RE :: "string \<Rightarrow> string option" where
  \<comment> \<open>\<^verbatim>\<open>MODULE_RE.search\<close>: the leftmost position where the pattern matches\<close>
  "MODULE_RE [] = MODULE_RE_at []"
| "MODULE_RE (c # cs) =
     (case MODULE_RE_at (c # cs) of Some g \<Rightarrow> Some g | None \<Rightarrow> MODULE_RE cs)"

section \<open>The document tree\<close>

text \<open>
  Nodes are Python objects that are shared: a class node is a member of its module's
  contents and is also the processor's current class. The objects live in a store,
  a list indexed by address; a reference is an address. A new object takes the next
  free address, and no object is ever freed: every address the program holds came from
  \<open>new\<close> and lies inside the store.
\<close>

type_synonym addr = nat

datatype error = AttributeError | TypeError | IndexError

datatype content = Child addr | Text string

datatype node_type =
    Node
  | ModuleNode (name: string)
  | ClassNode (module: addr) (name: string) (arguments: string)
  | MethodNode (class_node: addr) (name: string)
  | AttributeNode (class_node: addr) (name: string)
  | DataNode (module: addr) (name: string)

record node =
  kind :: node_type
  contents :: "content list"

record RootNode =
  modules :: "(string \<times> addr) list"
  files :: "(string \<times> addr) list"
  store :: "node list"

definition RootNode_init :: RootNode where
  "RootNode_init = \<lparr>modules = [], files = [], store = []\<rparr>"

definition new :: "node_type \<Rightarrow> RootNode \<Rightarrow> addr \<times> RootNode" where
  \<comment> \<open>\<^verbatim>\<open>Node.__init__\<close>: a fresh object with no contents\<close>
  "new k r = (length (store r), r\<lparr>store := store r @ [\<lparr>kind = k, contents = []\<rparr>]\<rparr>)"

definition add :: "addr \<Rightarrow> content \<Rightarrow> RootNode \<Rightarrow> RootNode" where
  \<comment> \<open>\<^verbatim>\<open>Node.add\<close>: \<^verbatim>\<open>self.contents.append(item)\<close>\<close>
  "add a item r =
     r\<lparr>store := (store r)[a := (store r ! a)\<lparr>contents := contents (store r ! a) @ [item]\<rparr>]\<rparr>"

definition add_text :: "addr \<Rightarrow> string list \<Rightarrow> RootNode \<Rightarrow> RootNode" where
  \<comment> \<open>\<^verbatim>\<open>Node.add_text\<close>\<close>
  "add_text a buf r = add a (Text (join [newline] buf)) r"

definition file_node :: "string \<Rightarrow> node_type \<Rightarrow> RootNode \<Rightarrow> addr \<times> RootNode" where
  \<comment> \<open>\<^verbatim>\<open>RootNode.file\<close>: get or create\<close>
  "file_node file_name k r =
     (case map_of (files r) file_name of
        Some a \<Rightarrow> (a, r)
      | None \<Rightarrow>
          (let (a, r') = new k r in (a, r'\<lparr>files := files r' @ [(file_name, a)]\<rparr>)))"

definition module_node :: "string \<Rightarrow> RootNode \<Rightarrow> addr \<times> RootNode" where
  \<comment> \<open>\<^verbatim>\<open>RootNode.module\<close>\<close>
  "module_node module_name r =
     (case map_of (modules r) module_name of
        Some a \<Rightarrow> (a, r)
      | None \<Rightarrow>
          (let (a, r') = file_node (''modules/'' @ module_name @ ''.rst'') (ModuleNode module_name) r
           in (a, r'\<lparr>modules := modules r' @ [(module_name, a)]\<rparr>)))"

section \<open>The file processor\<close>

text \<open>
  \<^verbatim>\<open>post_state\<close> and \<^verbatim>\<open>last_codedoc\<close> are attributes that \<^verbatim>\<open>__init__\<close> does not
  create: reading one before its first assignment raises \<^verbatim>\<open>AttributeError\<close>.
  \<^verbatim>\<open>current_line\<close> and \<^verbatim>\<open>current_match\<close> only carry the line and the last match
  from one statement to the next; they are the argument \<open>line\<close> and the results of the
  pattern functions. \<^verbatim>\<open>self.state\<close> is never read.
\<close>

datatype post_state_value = Unset | PyNone | PyClass

record FileProcessor =
  root :: RootNode
  path :: string
  buffer :: "string list option"
  current_class :: "addr option"
  last_codedoc :: "addr option"
  post_state :: post_state_value

definition FileProcessor_init :: "string \<Rightarrow> RootNode \<Rightarrow> FileProcessor" where
  \<comment> \<open>\<^verbatim>\<open>FileProcessor.__init__\<close>; the root is shared with the caller, who reads it back
      from the processor when the file is done\<close>
  "FileProcessor_init p r =
     \<lparr>root = r, path = p, buffer = None, current_class = None, last_codedoc = None,
      post_state = Unset\<rparr>"

definition modulename :: "string \<Rightarrow> error + string" where
  \<comment> \<open>the first three statements of \<^verbatim>\<open>module_doc\<close>; \<^verbatim>\<open>match.group(1)\<close> raises when
      the search found nothing\<close>
  "modulename p =
     (case MODULE_RE p of
        None \<Rightarrow> Inl AttributeError
      | Some m \<Rightarrow> Inr (if endswith m ''/index'' then take (length m - 6) m else m))"

definition module_doc :: "FileProcessor \<Rightarrow> error + addr \<times> FileProcessor" where
  "module_doc fp =
     (case modulename (path fp) of
        Inl e \<Rightarrow> Inl e
      | Inr mn \<Rightarrow> (let (a, r) = module_node mn (root fp) in Inr (a, fp\<lparr>root := r\<rparr>)))"

definition process_post_comment :: "string \<Rightarrow> FileProcessor \<Rightarrow> error + FileProcessor" where
  "process_post_comment line fp =
     (case post_state fp of
        Unset \<Rightarrow> Inl AttributeError
      | PyNone \<Rightarrow>
          (case buffer fp of
             None \<Rightarrow> Inl TypeError
           | Some [] \<Rightarrow> Inl IndexError
           | Some (b0 # bs) \<Rightarrow>
               (case CODEDOC_RE b0 of
                  Some token \<Rightarrow>
                    (let (codedoc, r) = file_node (''_codedoc/'' @ token @ ''.txt'') Node (root fp)
                     in Inr (fp\<lparr>last_codedoc := Some codedoc, root := add_text codedoc bs r\<rparr>))
                | None \<Rightarrow>
                    if b0 = ''>>'' then
                      (case last_codedoc fp of
                         None \<Rightarrow> Inl AttributeError
                       | Some codedoc \<Rightarrow> Inr (fp\<lparr>root := add_text codedoc bs (root fp)\<rparr>))
                    else
                      (case CLASS_RE line of
                         Some cname \<Rightarrow>
                           (case module_doc fp of
                              Inl e \<Rightarrow> Inl e
                            | Inr (m, fp1) \<Rightarrow>
                                (let (c, r) = new (ClassNode m cname []) (root fp1)
                                 in Inr (fp1\<lparr>current_class := Some c,
                                          root := add_text c (b0 # bs) (add m (Child c) r),
                                          post_state := PyClass\<rparr>)))
                       | None \<Rightarrow>
                           (case (current_class fp, METHOD_RE line) of
                              (Some c, Some sig) \<Rightarrow>
                                (let (n, r) = new (MethodNode c sig) (root fp)
                                 in Inr (fp\<lparr>root := add c (Child n) (add_text n (b0 # bs) r)\<rparr>))
                            | _ \<Rightarrow>
                                (case (current_class fp,
                                       case GETTER_RE line of Some g \<Rightarrow> Some g
                                       | None \<Rightarrow> ATTRIBUTE_RE line) of
                                   (Some c, Some aname) \<Rightarrow>
                                     (let (n, r) = new (AttributeNode c aname) (root fp)
                                      in Inr (fp\<lparr>root := add c (Child n) (add_text n (b0 # bs) r)\<rparr>))
                                 | _ \<Rightarrow>
                                     (case EXPORT_LET_RE line of
                                        Some dname \<Rightarrow>
                                          (case module_doc fp of
                                             Inl e \<Rightarrow> Inl e
                                           | Inr (m, fp1) \<Rightarrow>
                                               (let (n, r) = new (DataNode m dname) (root fp1)
                                                in Inr (fp1\<lparr>root := add m (Child n)
                                                                (add_text n (b0 # bs) r)\<rparr>)))
                                      | None \<Rightarrow> Inr fp))))))
      | PyClass \<Rightarrow>
          (case CONSTRUCTOR_RE line of
             Some args \<Rightarrow> Inl AttributeError
           | None \<Rightarrow> Inr fp))"

definition process_line :: "string \<Rightarrow> FileProcessor \<Rightarrow> error + FileProcessor" where
  "process_line line fp =
     (case COMMENT_RE line of
        Some g \<Rightarrow>
          Inr (fp\<lparr>buffer :=
                 Some ((case buffer fp of None \<Rightarrow> [] | Some b \<Rightarrow> b)
                       @ [case g of None \<Rightarrow> [] | Some t \<Rightarrow> t])\<rparr>)
      | None \<Rightarrow>
          (case buffer fp of
             None \<Rightarrow> Inr fp
           | Some b \<Rightarrow>
               (case process_post_comment line (fp\<lparr>post_state := PyNone\<rparr>) of
                  Inl e \<Rightarrow> Inl e
                | Inr fp' \<Rightarrow> Inr (fp'\<lparr>buffer := None\<rparr>))))"

fun process_lines :: "string list \<Rightarrow> FileProcessor \<Rightarrow> error + FileProcessor" where
  \<comment> \<open>the loop of \<^verbatim>\<open>process\<close> over the lines the file yields\<close>
  "process_lines [] fp = Inr fp"
| "process_lines (line # ls) fp =
     (case process_line (strip line) fp of
        Inl e \<Rightarrow> Inl e
      | Inr fp' \<Rightarrow> process_lines ls fp')"

definition process :: "string list \<Rightarrow> FileProcessor \<Rightarrow> error + FileProcessor" where
  \<comment> \<open>\<^verbatim>\<open>FileProcessor.process\<close>; the first argument is the content of the file at
      \<^verbatim>\<open>self.path\<close>, line by line\<close>
  "process ls fp = process_lines ls (fp\<lparr>current_class := None\<rparr>)"

section \<open>The run\<close>

fun main_loop :: "(string \<times> string list) list \<Rightarrow> RootNode \<Rightarrow> error + RootNode" where
  \<comment> \<open>the first loop of \<^verbatim>\<open>main\<close>: the source files, path and lines, in the order
      \<^verbatim>\<open>get_source_files\<close> yields them\<close>
  "main_loop [] r = Inr r"
| "main_loop ((p, ls) # fs) r =
     (case process ls (FileProcessor_init p r) of
        Inl e \<Rightarrow> Inl e
      | Inr fp \<Rightarrow> main_loop fs (root fp))"

definition modules_index :: "RootNode \<Rightarrow> string list" where
  \<comment> \<open>the lines printed to \<^verbatim>\<open>modules/index.rst\<close>\<close>
  "modules_index r =
     [''Modules Index'', ''============='', ''.. toctree::'', ''   :maxdepth: 2'', []]
     @ map (\<lambda>key. ''   '' @ key) (sort (map fst (modules r)))"

definition main :: "(string \<times> string list) list \<Rightarrow> error + RootNode \<times> string list" where
  \<comment> \<open>\<^verbatim>\<open>main\<close>: the tree whose files are written out, and the lines of the index\<close>
  "main fs =
     (case main_loop fs RootNode_init of
        Inl e \<Rightarrow> Inl e
      | Inr r \<Rightarrow> Inr (r, modules_index r))"

section \<open>Index entries and directives\<close>

definition node_name :: "node list \<Rightarrow> addr \<Rightarrow> error + string" where
  \<comment> \<open>\<^verbatim>\<open>x.name\<close>: a plain \<^verbatim>\<open>Node\<close> has no such attribute\<close>
  "node_name st a = (case kind (st ! a) of Node \<Rightarrow> Inl AttributeError | k \<Rightarrow> Inr (name k))"

definition module_index :: "node list \<Rightarrow> addr \<Rightarrow> string \<Rightarrow> error + string" where
  \<comment> \<open>\<^verbatim>\<open>'%s; %s' % (self.module.name, self.name)\<close>, of \<^verbatim>\<open>ClassNode\<close> and \<^verbatim>\<open>DataNode\<close>\<close>
  "module_index st m n =
     (case node_name st m of Inl e \<Rightarrow> Inl e | Inr mn \<Rightarrow> Inr (mn @ ''; '' @ n))"

definition member_index :: "node list \<Rightarrow> addr \<Rightarrow> string \<Rightarrow> error + string" where
  \<comment> \<open>\<^verbatim>\<open>'%s#%s' % (self.class_node.index(), self.name)\<close>, of \<^verbatim>\<open>MethodNode\<close> and
      \<^verbatim>\<open>AttributeNode\<close>. The class node of a member is the processor's current class,
      always a \<^verbatim>\<open>ClassNode\<close>; a node without \<^verbatim>\<open>index\<close> in its place would raise\<close>
  "member_index st c n =
     (case kind (st ! c) of
        ClassNode m cn args \<Rightarrow>
          (case module_index st m cn of Inl e \<Rightarrow> Inl e | Inr ci \<Rightarrow> Inr (ci @ ''#'' @ n))
      | _ \<Rightarrow> Inl AttributeError)"

definition index :: "node list \<Rightarrow> addr \<Rightarrow> error + string" where
  \<comment> \<open>\<^verbatim>\<open>index()\<close> of the four domain nodes\<close>
  "index st a =
     (case kind (st ! a) of
        ClassNode m n args \<Rightarrow> module_index st m n
      | DataNode m n \<Rightarrow> module_index st m n
      | MethodNode c n \<Rightarrow> member_index st c n
      | AttributeNode c n \<Rightarrow> member_index st c n
      | _ \<Rightarrow> Inl AttributeError)"

definition directive :: "node list \<Rightarrow> addr \<Rightarrow> error + string" where
  \<comment> \<open>\<^verbatim>\<open>directive()\<close> of the four domain nodes\<close>
  "directive st a =
     (case kind (st ! a) of
        ClassNode m n args \<Rightarrow> Inr (''js:class:: '' @ n @ ''('' @ args @ '')'')
      | MethodNode c n \<Rightarrow> Inr (''js:function:: '' @ n)
      | AttributeNode c n \<Rightarrow> Inr (''js:attribute:: '' @ n)
      | DataNode m n \<Rightarrow> Inr (''js:data:: '' @ n)
      | _ \<Rightarrow> Inl AttributeError)"

section \<open>What the patterns accept\<close>

lemma literal_append: "literal p (p @ s) = Some s"
  by (simp add: literal_def)

lemma literal_Some_iff: "literal p s = Some r \<longleftrightarrow> s = p @ r"
proof
  assume "literal p s = Some r"
  then have "take (length p) s = p" and "drop (length p) s = r"
    by (auto simp: literal_def split: if_splits)
  then show "s = p @ r"
    by (metis append_take_drop_id)
qed (simp add: literal_append)

lemma literal_None_hd: "p \<noteq> [] \<Longrightarrow> s \<noteq> [] \<Longrightarrow> hd s \<noteq> hd p \<Longrightarrow> literal p s = None"
  by (cases p; cases s) (auto simp: literal_def)

lemma one_or_more_Some_iff:
  "one_or_more P s = Some (w, r) \<longleftrightarrow>
     w \<noteq> [] \<and> s = w @ r \<and> (\<forall>c\<in>set w. P c) \<and> (r = [] \<or> \<not> P (hd r))"
proof
  assume "one_or_more P s = Some (w, r)"
  then have w: "w = takeWhile P s" and r: "r = dropWhile P s" and ne: "w \<noteq> []"
    by (auto simp: one_or_more_def split: if_splits)
  have "r = [] \<or> \<not> P (hd r)"
    unfolding r by (metis hd_dropWhile)
  with w r ne show "w \<noteq> [] \<and> s = w @ r \<and> (\<forall>c\<in>set w. P c) \<and> (r = [] \<or> \<not> P (hd r))"
    by (auto dest: set_takeWhileD)
next
  assume a: "w \<noteq> [] \<and> s = w @ r \<and> (\<forall>c\<in>set w. P c) \<and> (r = [] \<or> \<not> P (hd r))"
  then have "takeWhile P s = w" and "dropWhile P s = r"
    by (cases r; simp)+
  with a show "one_or_more P s = Some (w, r)"
    by (simp add: one_or_more_def)
qed

lemma lazy_dots_Some_iff:
  assumes "suf \<noteq> []" "last suf \<noteq> newline"
  shows "lazy_dots suf s = Some a \<longleftrightarrow>
           newline \<notin> set a \<and> (s = a @ suf \<or> s = a @ suf @ [newline])"
proof
  assume h: "lazy_dots suf s = Some a"
  define s0 where "s0 = (if s \<noteq> [] \<and> last s = newline then butlast s else s)"
  from h have e: "endswith s0 suf" and n: "newline \<notin> set a"
    and a: "a = take (length s0 - length suf) s0"
    by (auto simp: lazy_dots_def Let_def s0_def split: if_splits)
  from e a have s0: "s0 = a @ suf"
    by (metis append_take_drop_id endswith_def)
  have "s = s0 \<or> s = s0 @ [newline]"
    unfolding s0_def by (metis append_butlast_last_id)
  with s0 n show "newline \<notin> set a \<and> (s = a @ suf \<or> s = a @ suf @ [newline])"
    by auto
next
  assume h: "newline \<notin> set a \<and> (s = a @ suf \<or> s = a @ suf @ [newline])"
  then have "(if s \<noteq> [] \<and> last s = newline then butlast s else s) = a @ suf"
    using assms by (auto simp: butlast_append)
  then show "lazy_dots suf s = Some a"
    using h by (simp add: lazy_dots_def Let_def endswith_def)
qed

lemma METHOD_RE_iff:
  "METHOD_RE s = Some g \<longleftrightarrow>
     (\<exists>w a. w \<noteq> [] \<and> (\<forall>c\<in>set w. is_word c) \<and> newline \<notin> set a \<and>
            g = w @ ''('' @ a @ '')'' \<and> (s = g @ '' {'' \<or> s = g @ '' {'' @ [newline]))"
proof
  assume "METHOD_RE s = Some g"
  then obtain w r r' a where p: "one_or_more is_word s = Some (w, r)" and l: "literal ''('' r = Some r'"
    and d: "lazy_dots '') {'' r' = Some a" and g: "g = w @ ''('' @ a @ '')''"
    by (auto simp: METHOD_RE_def split: option.splits)
  from d have "newline \<notin> set a \<and> (r' = a @ '') {'' \<or> r' = a @ '') {'' @ [newline])"
    by (subst (asm) lazy_dots_Some_iff) (simp_all add: newline_def)
  with p l g show "\<exists>w a. w \<noteq> [] \<and> (\<forall>c\<in>set w. is_word c) \<and> newline \<notin> set a \<and>
            g = w @ ''('' @ a @ '')'' \<and> (s = g @ '' {'' \<or> s = g @ '' {'' @ [newline])"
    unfolding one_or_more_Some_iff literal_Some_iff by auto
next
  assume "\<exists>w a. w \<noteq> [] \<and> (\<forall>c\<in>set w. is_word c) \<and> newline \<notin> set a \<and>
            g = w @ ''('' @ a @ '')'' \<and> (s = g @ '' {'' \<or> s = g @ '' {'' @ [newline])"
  then obtain w a e where w: "w \<noteq> []" "\<forall>c\<in>set w. is_word c" and a: "newline \<notin> set a"
    and g: "g = w @ ''('' @ a @ '')''" and s: "s = w @ ''('' @ a @ '') {'' @ e"
    and e: "e = [] \<or> e = [newline]"
    by auto
  have p: "one_or_more is_word s = Some (w, ''('' @ a @ '') {'' @ e)"
    unfolding one_or_more_Some_iff using w s by (simp add: is_word_def)
  have d: "lazy_dots '') {'' (a @ '') {'' @ e) = Some a"
    by (subst lazy_dots_Some_iff) (use a e in \<open>auto simp: newline_def\<close>)
  have l: "literal ''('' (''('' @ a @ '') {'' @ e) = Some (a @ '') {'' @ e)"
    unfolding literal_Some_iff by simp
  show "METHOD_RE s = Some g"
    unfolding METHOD_RE_def p using l d g by simp
qed

section \<open>The module pattern\<close>

lemma MODULE_RE_at_src:
  "newline \<notin> set a \<Longrightarrow> MODULE_RE_at (''src/'' @ a @ ''.js'') = Some a"
proof -
  assume a: "newline \<notin> set a"
  have "lazy_dots ''.js'' (a @ ''.js'') = Some a"
    by (subst lazy_dots_Some_iff) (use a in \<open>simp_all add: newline_def\<close>)
  moreover have "literal ''src/'' (''src/'' @ a @ ''.js'') = Some (a @ ''.js'')"
    by (rule literal_append)
  ultimately show ?thesis
    unfolding MODULE_RE_at_def by simp
qed

lemma MODULE_RE_at_start: "MODULE_RE_at s = Some g \<Longrightarrow> MODULE_RE s = Some g"
  by (cases s) simp_all

lemma MODULE_RE_skip:
  "CHR ''s'' \<notin> set pre \<Longrightarrow> s \<noteq> [] \<Longrightarrow> MODULE_RE (pre @ s) = MODULE_RE s"
proof (induction pre)
  case Nil
  then show ?case by simp
next
  case (Cons c pre)
  then have "literal ''src/'' (c # pre @ s) = None"
    by (auto simp: literal_def)
  then have "MODULE_RE_at (c # pre @ s) = None"
    by (simp add: MODULE_RE_at_def)
  with Cons show ?case
    by simp
qed

lemma MODULE_RE_src:
  assumes "newline \<notin> set a" and "CHR ''s'' \<notin> set pre"
  shows "MODULE_RE (pre @ ''src/'' @ a @ ''.js'') = Some a"
proof -
  have "MODULE_RE (''src/'' @ a @ ''.js'') = Some a"
    by (rule MODULE_RE_at_start [OF MODULE_RE_at_src [OF assms(1)]])
  moreover have "MODULE_RE (pre @ (''src/'' @ a @ ''.js'')) = MODULE_RE (''src/'' @ a @ ''.js'')"
    by (rule MODULE_RE_skip [OF assms(2)]) simp
  ultimately show ?thesis
    by simp
qed


section \<open>The rules of the resolver, one by one\<close>

lemma process_line_comment:
  "COMMENT_RE line = Some g \<Longrightarrow>
   process_line line fp =
     Inr (fp\<lparr>buffer := Some ((case buffer fp of None \<Rightarrow> [] | Some b \<Rightarrow> b)
                              @ [case g of None \<Rightarrow> [] | Some t \<Rightarrow> t])\<rparr>)"
  by (simp add: process_line_def)

lemma process_line_skip:
  "COMMENT_RE line = None \<Longrightarrow> buffer fp = None \<Longrightarrow> process_line line fp = Inr fp"
  by (simp add: process_line_def)

lemma process_line_route:
  "COMMENT_RE line = None \<Longrightarrow> buffer fp = Some b \<Longrightarrow>
   process_line line fp =
     (case process_post_comment line (fp\<lparr>post_state := PyNone\<rparr>) of
        Inl e \<Rightarrow> Inl e
      | Inr fp' \<Rightarrow> Inr (fp'\<lparr>buffer := None\<rparr>))"
  by (simp add: process_line_def)

lemma route_codedoc:
  "post_state fp = PyNone \<Longrightarrow> buffer fp = Some (b0 # bs) \<Longrightarrow> CODEDOC_RE b0 = Some token \<Longrightarrow>
   process_post_comment line fp =
     (let (codedoc, r) = file_node (''_codedoc/'' @ token @ ''.txt'') Node (root fp)
      in Inr (fp\<lparr>last_codedoc := Some codedoc, root := add_text codedoc bs r\<rparr>))"
  by (simp add: process_post_comment_def)

lemma route_continue:
  "post_state fp = PyNone \<Longrightarrow> buffer fp = Some (''>>'' # bs) \<Longrightarrow>
   process_post_comment line fp =
     (case last_codedoc fp of
        None \<Rightarrow> Inl AttributeError
      | Some codedoc \<Rightarrow> Inr (fp\<lparr>root := add_text codedoc bs (root fp)\<rparr>))"
proof -
  have "CODEDOC_RE ''>>'' = None"
    by (simp add: CODEDOC_RE_def literal_def)
  then show "post_state fp = PyNone \<Longrightarrow> buffer fp = Some (''>>'' # bs) \<Longrightarrow> ?thesis"
    by (simp add: process_post_comment_def)
qed

lemma route_class:
  "post_state fp = PyNone \<Longrightarrow> buffer fp = Some (b0 # bs) \<Longrightarrow> CODEDOC_RE b0 = None \<Longrightarrow>
   b0 \<noteq> ''>>'' \<Longrightarrow> CLASS_RE line = Some cname \<Longrightarrow>
   process_post_comment line fp =
     (case module_doc fp of
        Inl e \<Rightarrow> Inl e
      | Inr (m, fp1) \<Rightarrow>
          (let (c, r) = new (ClassNode m cname []) (root fp1)
           in Inr (fp1\<lparr>current_class := Some c,
                    root := add_text c (b0 # bs) (add m (Child c) r),
                    post_state := PyClass\<rparr>)))"
  by (simp add: process_post_comment_def)

lemma route_method:
  "post_state fp = PyNone \<Longrightarrow> buffer fp = Some (b0 # bs) \<Longrightarrow> CODEDOC_RE b0 = None \<Longrightarrow>
   b0 \<noteq> ''>>'' \<Longrightarrow> CLASS_RE line = None \<Longrightarrow> current_class fp = Some c \<Longrightarrow>
   METHOD_RE line = Some sig \<Longrightarrow>
   process_post_comment line fp =
     (let (n, r) = new (MethodNode c sig) (root fp)
      in Inr (fp\<lparr>root := add c (Child n) (add_text n (b0 # bs) r)\<rparr>))"
  by (simp add: process_post_comment_def)

lemma route_attribute:
  "post_state fp = PyNone \<Longrightarrow> buffer fp = Some (b0 # bs) \<Longrightarrow> CODEDOC_RE b0 = None \<Longrightarrow>
   b0 \<noteq> ''>>'' \<Longrightarrow> CLASS_RE line = None \<Longrightarrow> current_class fp = Some c \<Longrightarrow>
   METHOD_RE line = None \<Longrightarrow>
   (case GETTER_RE line of Some g \<Rightarrow> Some g | None \<Rightarrow> ATTRIBUTE_RE line) = Some aname \<Longrightarrow>
   process_post_comment line fp =
     (let (n, r) = new (AttributeNode c aname) (root fp)
      in Inr (fp\<lparr>root := add c (Child n) (add_text n (b0 # bs) r)\<rparr>))"
  by (simp add: process_post_comment_def)

lemma route_data:
  "post_state fp = PyNone \<Longrightarrow> buffer fp = Some (b0 # bs) \<Longrightarrow> CODEDOC_RE b0 = None \<Longrightarrow>
   b0 \<noteq> ''>>'' \<Longrightarrow> CLASS_RE line = None \<Longrightarrow>
   current_class fp = None \<or>
     (METHOD_RE line = None \<and> GETTER_RE line = None \<and> ATTRIBUTE_RE line = None) \<Longrightarrow>
   EXPORT_LET_RE line = Some dname \<Longrightarrow>
   process_post_comment line fp =
     (case module_doc fp of
        Inl e \<Rightarrow> Inl e
      | Inr (m, fp1) \<Rightarrow>
          (let (n, r) = new (DataNode m dname) (root fp1)
           in Inr (fp1\<lparr>root := add m (Child n) (add_text n (b0 # bs) r)\<rparr>)))"
  by (auto simp: process_post_comment_def split: option.splits)

lemma route_nothing:
  "post_state fp = PyNone \<Longrightarrow> buffer fp = Some (b0 # bs) \<Longrightarrow> CODEDOC_RE b0 = None \<Longrightarrow>
   b0 \<noteq> ''>>'' \<Longrightarrow> CLASS_RE line = None \<Longrightarrow>
   current_class fp = None \<or>
     (METHOD_RE line = None \<and> GETTER_RE line = None \<and> ATTRIBUTE_RE line = None) \<Longrightarrow>
   EXPORT_LET_RE line = None \<Longrightarrow>
   process_post_comment line fp = Inr fp"
  by (auto simp: process_post_comment_def split: option.splits)

section \<open>Tree operations\<close>

lemma new_simps [simp]:
  "fst (new k r) = length (store r)"
  "modules (snd (new k r)) = modules r"
  "files (snd (new k r)) = files r"
  "store (snd (new k r)) = store r @ [\<lparr>kind = k, contents = []\<rparr>]"
  by (simp_all add: new_def)

lemma add_simps [simp]:
  "modules (add a i r) = modules r"
  "files (add a i r) = files r"
  "length (store (add a i r)) = length (store r)"
  by (simp_all add: add_def)

lemma kind_add [simp]: "kind (store (add a i r) ! b) = kind (store r ! b)"
  by (cases "a < length (store r)") (simp_all add: add_def nth_list_update list_update_beyond)

lemma add_text_simps [simp]:
  "modules (add_text a buf r) = modules r"
  "files (add_text a buf r) = files r"
  "length (store (add_text a buf r)) = length (store r)"
  "kind (store (add_text a buf r) ! b) = kind (store r ! b)"
  by (simp_all add: add_text_def)

lemma file_node_old:
  "map_of (files r) f = Some a \<Longrightarrow> file_node f k r = (a, r)"
  by (simp add: file_node_def)

lemma file_node_new:
  "map_of (files r) f = None \<Longrightarrow>
   file_node f k r =
     (length (store r),
      r\<lparr>store := store r @ [\<lparr>kind = k, contents = []\<rparr>],
        files := files r @ [(f, length (store r))]\<rparr>)"
  by (simp add: file_node_def new_def)

lemma module_node_old:
  "map_of (modules r) mn = Some a \<Longrightarrow> module_node mn r = (a, r)"
  by (simp add: module_node_def)

lemma module_node_new:
  "map_of (modules r) mn = None \<Longrightarrow>
   module_node mn r =
     (fst (file_node (''modules/'' @ mn @ ''.rst'') (ModuleNode mn) r),
      (snd (file_node (''modules/'' @ mn @ ''.rst'') (ModuleNode mn) r))
        \<lparr>modules := modules r @ [(mn, fst (file_node (''modules/'' @ mn @ ''.rst'') (ModuleNode mn) r))]\<rparr>)"
  by (cases "map_of (files r) (''modules/'' @ mn @ ''.rst'')")
     (simp_all add: module_node_def file_node_def new_def)

lemma module_doc_Inr:
  "module_doc fp = Inr (m, fp1) \<longleftrightarrow>
     (\<exists>mn. modulename (path fp) = Inr mn \<and> m = fst (module_node mn (root fp)) \<and>
           fp1 = fp\<lparr>root := snd (module_node mn (root fp))\<rparr>)"
  by (auto simp: module_doc_def split: sum.splits prod.splits)

lemma module_doc_Inl:
  "module_doc fp = Inl e \<longleftrightarrow> modulename (path fp) = Inl e"
  by (auto simp: module_doc_def split: sum.splits prod.splits)

section \<open>Every step of the scanner\<close>

lemma process_line_cases [consumes 1, case_names comment skip codedoc continue klass meth attribute data nomatch]:
  assumes "process_line line fp = Inr fp'"
  obtains
    g where "COMMENT_RE line = Some g"
      "fp' = fp\<lparr>buffer := Some ((case buffer fp of None \<Rightarrow> [] | Some b \<Rightarrow> b)
                                  @ [case g of None \<Rightarrow> [] | Some t \<Rightarrow> t])\<rparr>"
  | "COMMENT_RE line = None" "buffer fp = None" "fp' = fp"
  | b0 bs token F where "COMMENT_RE line = None" "buffer fp = Some (b0 # bs)"
      "CODEDOC_RE b0 = Some token"
      "F = file_node (''_codedoc/'' @ token @ ''.txt'') Node (root fp)"
      "fp' = fp\<lparr>last_codedoc := Some (fst F), root := add_text (fst F) bs (snd F),
                post_state := PyNone, buffer := None\<rparr>"
  | bs a where "COMMENT_RE line = None" "buffer fp = Some (''>>'' # bs)"
      "last_codedoc fp = Some a"
      "fp' = fp\<lparr>root := add_text a bs (root fp), post_state := PyNone, buffer := None\<rparr>"
  | b0 bs cname mn M c where "COMMENT_RE line = None" "buffer fp = Some (b0 # bs)"
      "CODEDOC_RE b0 = None" "b0 \<noteq> ''>>''" "CLASS_RE line = Some cname"
      "modulename (path fp) = Inr mn" "M = module_node mn (root fp)"
      "c = length (store (snd M))"
      "fp' = fp\<lparr>root := add_text c (b0 # bs)
                          (add (fst M) (Child c) (snd (new (ClassNode (fst M) cname []) (snd M)))),
                current_class := Some c, post_state := PyClass, buffer := None\<rparr>"
  | b0 bs c sig n where "COMMENT_RE line = None" "buffer fp = Some (b0 # bs)"
      "CODEDOC_RE b0 = None" "b0 \<noteq> ''>>''" "CLASS_RE line = None"
      "current_class fp = Some c" "METHOD_RE line = Some sig"
      "n = length (store (root fp))"
      "fp' = fp\<lparr>root := add c (Child n)
                          (add_text n (b0 # bs) (snd (new (MethodNode c sig) (root fp)))),
                post_state := PyNone, buffer := None\<rparr>"
  | b0 bs c aname n where "COMMENT_RE line = None" "buffer fp = Some (b0 # bs)"
      "CODEDOC_RE b0 = None" "b0 \<noteq> ''>>''" "CLASS_RE line = None"
      "current_class fp = Some c" "METHOD_RE line = None"
      "(case GETTER_RE line of Some g \<Rightarrow> Some g | None \<Rightarrow> ATTRIBUTE_RE line) = Some aname"
      "n = length (store (root fp))"
      "fp' = fp\<lparr>root := add c (Child n)
                          (add_text n (b0 # bs) (snd (new (AttributeNode c aname) (root fp)))),
                post_state := PyNone, buffer := None\<rparr>"
  | b0 bs dname mn M n where "COMMENT_RE line = None" "buffer fp = Some (b0 # bs)"
      "CODEDOC_RE b0 = None" "b0 \<noteq> ''>>''" "CLASS_RE line = None"
      "current_class fp = None \<or>
         (METHOD_RE line = None \<and> GETTER_RE line = None \<and> ATTRIBUTE_RE line = None)"
      "EXPORT_LET_RE line = Some dname"
      "modulename (path fp) = Inr mn" "M = module_node mn (root fp)"
      "n = length (store (snd M))"
      "fp' = fp\<lparr>root := add (fst M) (Child n)
                          (add_text n (b0 # bs) (snd (new (DataNode (fst M) dname) (snd M)))),
                post_state := PyNone, buffer := None\<rparr>"
  | b0 bs where "COMMENT_RE line = None" "buffer fp = Some (b0 # bs)"
      "CODEDOC_RE b0 = None" "b0 \<noteq> ''>>''" "CLASS_RE line = None"
      "current_class fp = None \<or>
         (METHOD_RE line = None \<and> GETTER_RE line = None \<and> ATTRIBUTE_RE line = None)"
      "EXPORT_LET_RE line = None"
      "fp' = fp\<lparr>post_state := PyNone, buffer := None\<rparr>"
proof (cases "COMMENT_RE line")
  case (Some g)
  from assms have "fp' = fp\<lparr>buffer := Some ((case buffer fp of None \<Rightarrow> [] | Some b \<Rightarrow> b)
                                  @ [case g of None \<Rightarrow> [] | Some t \<Rightarrow> t])\<rparr>"
    by (simp add: process_line_comment [OF Some])
  then show thesis
    by (rule that(1) [OF Some])
next
  case None
  note nc = None
  show thesis
  proof (cases "buffer fp")
    case None
    from assms have "fp' = fp"
      by (simp add: process_line_skip [OF nc None])
    then show thesis
      by (rule that(2) [OF nc None])
  next
    case (Some b)
    let ?fp = "fp\<lparr>post_state := PyNone\<rparr>"
    from assms have "(case process_post_comment line ?fp of Inl e \<Rightarrow> Inl e
                      | Inr x \<Rightarrow> Inr (x\<lparr>buffer := None\<rparr>)) = Inr fp'"
      unfolding process_line_route [OF nc Some] .
    then obtain fp1 where r: "process_post_comment line ?fp = Inr fp1"
      and fp': "fp' = fp1\<lparr>buffer := None\<rparr>"
      by (cases "process_post_comment line ?fp") auto
    have ps: "post_state ?fp = PyNone" by simp
    show thesis
    proof (cases b)
      case Nil
      with Some r show thesis
        by (simp add: process_post_comment_def)
    next
      case (Cons b0 bs)
      with Some have buf: "buffer fp = Some (b0 # bs)" "buffer ?fp = Some (b0 # bs)"
        by simp_all
      show thesis
      proof (cases "CODEDOC_RE b0")
        case (Some token)
        from r fp' show thesis
          unfolding route_codedoc [OF ps buf(2) Some]
          by (intro that(3) [OF nc buf(1) Some refl]) (auto simp: new_def split: prod.splits)
      next
        case None
        note ncd = None
        show thesis
        proof (cases "b0 = ''>>''")
          case True
          from r fp' buf True show thesis
            using that(4) [OF nc]
            by (auto simp: route_continue [OF ps] split: option.splits)
        next
          case False
          note nm = False
          show thesis
          proof (cases "CLASS_RE line")
            case (Some cname)
            from r obtain m fp2 where md: "module_doc ?fp = Inr (m, fp2)"
              and fp1: "fp1 = fp2\<lparr>current_class := Some (length (store (root fp2))),
                    root := add_text (length (store (root fp2))) (b0 # bs)
                              (add m (Child (length (store (root fp2))))
                                 (snd (new (ClassNode m cname []) (root fp2)))),
                    post_state := PyClass\<rparr>"
              unfolding route_class [OF ps buf(2) ncd nm Some]
              by (auto simp: new_def split: sum.splits)
            from md obtain mn where mn: "modulename (path fp) = Inr mn"
              and m: "m = fst (module_node mn (root fp))"
              and fp2: "fp2 = ?fp\<lparr>root := snd (module_node mn (root fp))\<rparr>"
              unfolding module_doc_Inr by auto
            show thesis
              by (rule that(5) [OF nc buf(1) ncd nm Some mn refl refl])
                 (simp add: fp' fp1 fp2 m)
          next
            case None
            note ncl = None
            show thesis
            proof (cases "current_class fp \<noteq> None \<and> METHOD_RE line \<noteq> None")
              case True
              then obtain c sig where c: "current_class fp = Some c"
                and sig: "METHOD_RE line = Some sig"
                by auto
              have c': "current_class ?fp = Some c" using c by simp
              from r fp' show thesis
                unfolding route_method [OF ps buf(2) ncd nm ncl c' sig]
                by (intro that(6) [OF nc buf(1) ncd nm ncl c sig refl])
                   (auto simp: new_def split: prod.splits)
            next
              case False
              note nme = False
              show thesis
              proof (cases "current_class fp \<noteq> None \<and>
                  (case GETTER_RE line of Some g \<Rightarrow> Some g | None \<Rightarrow> ATTRIBUTE_RE line) \<noteq> None")
                case True
                then obtain c aname where c: "current_class fp = Some c"
                  and an: "(case GETTER_RE line of Some g \<Rightarrow> Some g
                            | None \<Rightarrow> ATTRIBUTE_RE line) = Some aname"
                  by auto
                from nme c have nmr: "METHOD_RE line = None" by simp
                have c': "current_class ?fp = Some c" using c by simp
                from r fp' show thesis
                  unfolding route_attribute [OF ps buf(2) ncd nm ncl c' nmr an]
                  by (intro that(7) [OF nc buf(1) ncd nm ncl c nmr an refl])
                     (auto simp: new_def split: prod.splits)
              next
                case False
                with nme have no: "current_class fp = None \<or>
                  (METHOD_RE line = None \<and> GETTER_RE line = None \<and> ATTRIBUTE_RE line = None)"
                  by (auto split: option.splits)
                then have no': "current_class ?fp = None \<or>
                  (METHOD_RE line = None \<and> GETTER_RE line = None \<and> ATTRIBUTE_RE line = None)"
                  by simp
                show thesis
                proof (cases "EXPORT_LET_RE line")
                  case None
                  from r fp' show thesis
                    unfolding route_nothing [OF ps buf(2) ncd nm ncl no' None]
                    by (intro that(9) [OF nc buf(1) ncd nm ncl no None]) auto
                next
                  case (Some dname)
                  from r obtain m fp2 where md: "module_doc ?fp = Inr (m, fp2)"
                    and fp1: "fp1 = fp2\<lparr>root := add m (Child (length (store (root fp2))))
                                (add_text (length (store (root fp2))) (b0 # bs)
                                   (snd (new (DataNode m dname) (root fp2))))\<rparr>"
                    unfolding route_data [OF ps buf(2) ncd nm ncl no' Some]
                    by (auto simp: new_def split: sum.splits)
                  from md obtain mn where mn: "modulename (path fp) = Inr mn"
                    and m: "m = fst (module_node mn (root fp))"
                    and fp2: "fp2 = ?fp\<lparr>root := snd (module_node mn (root fp))\<rparr>"
                    unfolding module_doc_Inr by auto
                  show thesis
                    by (rule that(8) [OF nc buf(1) ncd nm ncl no Some mn refl refl])
                       (simp add: fp' fp1 fp2 m)
                qed
              qed
            qed
          qed
        qed
      qed
    qed
  qed
qed

section \<open>The method rule\<close>

lemma METHOD_RE_other_starts:
  "METHOD_RE (''//'' @ r) = None" "METHOD_RE (''#'' @ r) = None"
  "METHOD_RE (''class '' @ r) = None" "METHOD_RE (''export '' @ r) = None"
  "METHOD_RE (''get '' @ r) = None"
  by (simp_all add: METHOD_RE_def one_or_more_def is_word_def literal_def)

lemma COMMENT_RE_start:
  "COMMENT_RE s = Some g \<Longrightarrow> (\<exists>r. s = ''//'' @ r) \<or> (\<exists>r. s = ''#'' @ r)"
  unfolding COMMENT_RE_def
  by (cases "literal ''//'' s"; cases "literal ''#'' s") (auto simp: literal_Some_iff)

lemma CLASS_RE_start:
  "CLASS_RE s = Some c \<Longrightarrow> (\<exists>r. s = ''class '' @ r) \<or> (\<exists>r. s = ''export '' @ r)"
  unfolding CLASS_RE_def class_tail_def
  by (cases "literal ''export '' s"; cases "literal ''class '' s") (auto simp: literal_Some_iff)

lemma METHOD_RE_excludes:
  assumes "METHOD_RE s = Some sig"
  shows "COMMENT_RE s = None" and "CLASS_RE s = None"
proof -
  show "COMMENT_RE s = None"
  proof (cases "COMMENT_RE s")
    case (Some g)
    from COMMENT_RE_start [OF Some] assms show ?thesis
      by (auto simp: METHOD_RE_other_starts [simplified])
  qed simp
  show "CLASS_RE s = None"
  proof (cases "CLASS_RE s")
    case (Some c)
    from CLASS_RE_start [OF Some] assms show ?thesis
      by (auto simp: METHOD_RE_other_starts [simplified])
  qed simp
qed

lemma process_line_method:
  assumes "current_class fp = Some c" and "buffer fp = Some (b0 # bs)"
    and "CODEDOC_RE b0 = None" and "b0 \<noteq> ''>>''" and "METHOD_RE line = Some sig"
  shows "process_line line fp =
           Inr (fp\<lparr>root := add c (Child (length (store (root fp))))
                          (add_text (length (store (root fp))) (b0 # bs)
                             (snd (new (MethodNode c sig) (root fp)))),
                    post_state := PyNone, buffer := None\<rparr>)"
proof -
  note ex = METHOD_RE_excludes [OF assms(5)]
  have "process_post_comment line (fp\<lparr>post_state := PyNone\<rparr>) =
      (let (n, r) = new (MethodNode c sig) (root (fp\<lparr>post_state := PyNone\<rparr>))
       in Inr (fp\<lparr>post_state := PyNone,
                   root := add c (Child n) (add_text n (b0 # bs) r)\<rparr>))"
    using assms ex by (subst route_method [where c = c and sig = sig and ?b0.0 = b0 and bs = bs]) simp_all
  then show ?thesis
    unfolding process_line_route [OF ex(1) assms(2)]
    by (simp add: new_def)
qed


lemma file_node_store:
  "store (snd (file_node f k r)) = store r \<or>
   store (snd (file_node f k r)) = store r @ [\<lparr>kind = k, contents = []\<rparr>]"
  by (cases "map_of (files r) f") (simp_all add: file_node_old file_node_new)

lemma module_node_store:
  "store (snd (module_node mn r)) = store r \<or>
   store (snd (module_node mn r)) = store r @ [\<lparr>kind = ModuleNode mn, contents = []\<rparr>]"
proof (cases "map_of (modules r) mn")
  case None
  show ?thesis
    using file_node_store [of "''modules/'' @ mn @ ''.rst''" "ModuleNode mn" r]
    by (simp add: module_node_new [OF None])
qed (simp add: module_node_old)

lemma process_line_new_method:
  assumes "process_line line fp = Inr fp'"
    and "length (store (root fp)) \<le> n" and "n < length (store (root fp'))"
    and "kind (store (root fp') ! n) = MethodNode c sig"
  shows "METHOD_RE line = Some sig"
  using assms
proof (cases rule: process_line_cases)
  case (codedoc b0 bs token F)
  with assms(2-4) file_node_store [of "''_codedoc/'' @ token @ ''.txt''" Node "root fp"]
  show ?thesis
    by (auto simp: nth_append split: if_splits)
next
  case (klass b0 bs cname mn M k)
  with assms(2-4) module_node_store [of mn "root fp"]
  show ?thesis
    by (auto simp: nth_append less_Suc_eq split: if_splits)
next
  case (meth b0 bs k sg m)
  with assms(2-4) show ?thesis
    by (auto simp: nth_append less_Suc_eq split: if_splits)
next
  case (attribute b0 bs k aname m)
  with assms(2-4) show ?thesis
    by (auto simp: nth_append less_Suc_eq split: if_splits)
next
  case (data b0 bs dname mn M m)
  with assms(2-4) module_node_store [of mn "root fp"]
  show ?thesis
    by (auto simp: nth_append less_Suc_eq split: if_splits)
qed (use assms(2-4) in auto)

lemma strip_last: "strip l = xs @ [ch] \<Longrightarrow> \<not> is_space ch"
proof -
  assume "strip l = xs @ [ch]"
  then have "rev (strip l) = ch # rev xs" by simp
  then have "dropWhile is_space (rev (dropWhile is_space l)) = ch # rev xs"
    by (simp add: strip_def)
  then show "\<not> is_space ch"
    by (metis hd_dropWhile list.sel(1) list.simps(3))
qed

lemma strip_not_newline_end: "strip l \<noteq> xs @ [newline]"
  using strip_last [of l xs newline] by (auto simp: is_space_def newline_def)


section \<open>What a step keeps\<close>

lemma file_node_files:
  "(f, fst (file_node f k r)) \<in> set (files (snd (file_node f k r)))"
  by (cases "map_of (files r) f") (auto simp: file_node_old file_node_new dest: map_of_SomeD)

lemma file_node_files_mono:
  "set (files r) \<subseteq> set (files (snd (file_node f k r)))"
  by (cases "map_of (files r) f") (auto simp: file_node_old file_node_new)

lemma module_node_files_mono:
  "set (files r) \<subseteq> set (files (snd (module_node mn r)))"
proof (cases "map_of (modules r) mn")
  case None
  show ?thesis
    using file_node_files_mono [of r "''modules/'' @ mn @ ''.rst''" "ModuleNode mn"]
    by (simp add: module_node_new [OF None])
qed (simp add: module_node_old)

lemma process_line_last_codedoc:
  assumes "process_line line fp = Inr fp'"
    and "\<forall>a. last_codedoc fp = Some a \<longrightarrow>
           (\<exists>k. (k, a) \<in> set (files (root fp)) \<and> take 9 k = ''_codedoc/'')"
  shows "\<forall>a. last_codedoc fp' = Some a \<longrightarrow>
           (\<exists>k. (k, a) \<in> set (files (root fp')) \<and> take 9 k = ''_codedoc/'')"
  using assms(1)
proof (cases rule: process_line_cases)
  case (codedoc b0 bs token F)
  then show ?thesis
    using file_node_files [of "''_codedoc/'' @ token @ ''.txt''" Node "root fp"]
    by (auto intro!: exI [of _ "''_codedoc/'' @ token @ ''.txt''"])
next
  case (klass b0 bs cname mn M c)
  then show ?thesis
    using assms(2) module_node_files_mono [of "root fp" mn] by auto
next
  case (data b0 bs dname mn M n)
  then show ?thesis
    using assms(2) module_node_files_mono [of "root fp" mn] by auto
qed (use assms(2) in auto)

lemma process_lines_last_codedoc:
  "process_lines ls fp = Inr fp' \<Longrightarrow>
   \<forall>a. last_codedoc fp = Some a \<longrightarrow>
       (\<exists>k. (k, a) \<in> set (files (root fp)) \<and> take 9 k = ''_codedoc/'') \<Longrightarrow>
   \<forall>a. last_codedoc fp' = Some a \<longrightarrow>
       (\<exists>k. (k, a) \<in> set (files (root fp')) \<and> take 9 k = ''_codedoc/'')"
proof (induction ls arbitrary: fp)
  case Nil
  then show ?case by simp
next
  case (Cons l ls)
  from Cons.prems(1) obtain fp1 where s: "process_line (strip l) fp = Inr fp1"
    and r: "process_lines ls fp1 = Inr fp'"
    by (auto split: sum.splits)
  show ?case
    by (rule Cons.IH [OF r process_line_last_codedoc [OF s Cons.prems(2)]])
qed

lemma process_lines_append:
  "process_lines (xs @ ys) fp =
     (case process_lines xs fp of Inl e \<Rightarrow> Inl e | Inr fp' \<Rightarrow> process_lines ys fp')"
  by (induction xs arbitrary: fp) (auto split: sum.splits)

lemma main_loop_append:
  "main_loop (fs @ gs) r =
     (case main_loop fs r of Inl e \<Rightarrow> Inl e | Inr r' \<Rightarrow> main_loop gs r')"
  by (induction fs arbitrary: r) (auto split: sum.splits)












lemma file_node_kinds:
  "length (store r) \<le> length (store (snd (file_node f k r))) \<and>
   (\<forall>a<length (store r). store (snd (file_node f k r)) ! a = store r ! a)"
  by (cases "map_of (files r) f") (simp_all add: file_node_old file_node_new nth_append)

lemma module_node_kinds:
  "length (store r) \<le> length (store (snd (module_node mn r))) \<and>
   (\<forall>a<length (store r). store (snd (module_node mn r)) ! a = store r ! a)"
proof (cases "map_of (modules r) mn")
  case None
  show ?thesis
    using file_node_kinds [of r "''modules/'' @ mn @ ''.rst''" "ModuleNode mn"]
    by (simp add: module_node_new [OF None])
qed (simp add: module_node_old)

lemma process_line_kinds:
  assumes "process_line line fp = Inr fp'"
  shows "length (store (root fp)) \<le> length (store (root fp')) \<and>
         (\<forall>a<length (store (root fp)).
            kind (store (root fp') ! a) = kind (store (root fp) ! a))"
  using assms
proof (cases rule: process_line_cases)
  case (comment g)
  show ?thesis unfolding comment(2) by simp
next
  case skip
  then show ?thesis by simp
next
  case (codedoc b0 bs token F)
  show ?thesis
    unfolding codedoc(5) codedoc(4)
    using file_node_kinds [of "root fp" "''_codedoc/'' @ token @ ''.txt''" Node] by simp
next
  case (continue bs a)
  show ?thesis unfolding continue(4) by simp
next
  case (klass b0 bs cname mn M c)
  show ?thesis
    unfolding klass(9) klass(7)
    using module_node_kinds [of "root fp" mn] by (simp add: nth_append)
next
  case (meth b0 bs c sig n)
  show ?thesis unfolding meth(9) by (simp add: nth_append)
next
  case (attribute b0 bs c aname n)
  show ?thesis unfolding attribute(10) by (simp add: nth_append)
next
  case (data b0 bs dname mn M n)
  show ?thesis
    unfolding data(11) data(9)
    using module_node_kinds [of "root fp" mn] by (simp add: nth_append)
next
  case (nomatch b0 bs)
  show ?thesis unfolding nomatch(8) by simp
qed

lemma process_lines_kinds:
  "process_lines ls fp = Inr fp' \<Longrightarrow>
   length (store (root fp)) \<le> length (store (root fp')) \<and>
   (\<forall>a<length (store (root fp)). kind (store (root fp') ! a) = kind (store (root fp) ! a))"
proof (induction ls arbitrary: fp)
  case Nil
  then show ?case by simp
next
  case (Cons l ls)
  from Cons.prems(1) obtain fp1 where s: "process_line (strip l) fp = Inr fp1"
    and r: "process_lines ls fp1 = Inr fp'"
    by (auto split: sum.splits)
  note a = process_line_kinds [OF s]
  note b = Cons.IH [OF r]
  show ?case
  proof (intro conjI allI impI)
    show "length (store (root fp)) \<le> length (store (root fp'))"
      using a b by linarith
    fix n assume n: "n < length (store (root fp))"
    then have "n < length (store (root fp1))"
      using a by linarith
    then have "kind (store (root fp') ! n) = kind (store (root fp1) ! n)"
      using b by blast
    also have "\<dots> = kind (store (root fp) ! n)"
      using a n by blast
    finally show "kind (store (root fp') ! n) = kind (store (root fp) ! n)" .
  qed
qed

lemma process_line_current_class:
  assumes "process_line line fp = Inr fp'"
    and "\<not> (COMMENT_RE line = None \<and> CLASS_RE line \<noteq> None \<and>
            (\<exists>b0 bs. buffer fp = Some (b0 # bs) \<and> CODEDOC_RE b0 = None \<and> b0 \<noteq> ''>>''))"
  shows "current_class fp' = current_class fp"
  using assms(1)
proof (cases rule: process_line_cases)
  case (comment g)
  show ?thesis unfolding comment(2) by simp
next
  case skip
  then show ?thesis by simp
next
  case (codedoc b0 bs token F)
  show ?thesis unfolding codedoc(5) by simp
next
  case (continue bs a)
  show ?thesis unfolding continue(4) by simp
next
  case (klass b0 bs cname mn M c)
  with assms(2) show ?thesis by simp
next
  case (meth b0 bs c sig n)
  show ?thesis unfolding meth(9) by simp
next
  case (attribute b0 bs c aname n)
  show ?thesis unfolding attribute(10) by simp
next
  case (data b0 bs dname mn M n)
  show ?thesis unfolding data(11) by simp
next
  case (nomatch b0 bs)
  show ?thesis unfolding nomatch(8) by simp
qed

lemma process_line_class:
  assumes "process_line line fp = Inr fp'"
    and "COMMENT_RE line = None" and "CLASS_RE line = Some cname"
    and "buffer fp = Some (b0 # bs)" and "CODEDOC_RE b0 = None" and "b0 \<noteq> ''>>''"
  shows "\<exists>c m. current_class fp' = Some c \<and> length (store (root fp)) \<le> c \<and>
           c < length (store (root fp')) \<and>
           kind (store (root fp') ! c) = ClassNode m cname []"
  using assms(1)
proof (cases rule: process_line_cases)
  case (klass b0' bs' cname' mn M c)
  have len: "length (store (root fp)) \<le> length (store (snd M))"
    unfolding klass(7) using module_node_kinds [of "root fp" mn] by simp
  have "kind (store (root fp') ! c) = ClassNode (fst M) cname []"
    using klass(5) assms(3) unfolding klass(9) klass(8) by simp
  moreover have "current_class fp' = Some c" "c < length (store (root fp'))"
    unfolding klass(9) klass(8) by simp_all
  ultimately show ?thesis
    using len klass(8) by blast
qed (use assms(2-6) in simp_all)

lemma process_lines_current_class:
  "process_lines ls fp = Inr fp' \<Longrightarrow>
   \<forall>xs l ys s. ls = xs @ l # ys \<and> process_lines xs fp = Inr s \<and> CLASS_RE (strip l) \<noteq> None
      \<longrightarrow> \<not> (\<exists>c0 cs. buffer s = Some (c0 # cs) \<and> CODEDOC_RE c0 = None \<and> c0 \<noteq> ''>>'') \<Longrightarrow>
   current_class fp' = current_class fp"
proof (induction ls arbitrary: fp)
  case Nil
  then show ?case by simp
next
  case (Cons l ls)
  from Cons.prems(1) obtain fp1 where s: "process_line (strip l) fp = Inr fp1"
    and r: "process_lines ls fp1 = Inr fp'"
    by (auto split: sum.splits)
  have "l # ls = [] @ l # ls \<and> process_lines [] fp = Inr fp"
    by simp
  with Cons.prems(2) have here: "CLASS_RE (strip l) \<noteq> None \<longrightarrow>
      \<not> (\<exists>c0 cs. buffer fp = Some (c0 # cs) \<and> CODEDOC_RE c0 = None \<and> c0 \<noteq> ''>>'')"
    by blast
  have rest: "\<forall>xs l' ys s'. ls = xs @ l' # ys \<and> process_lines xs fp1 = Inr s' \<and>
      CLASS_RE (strip l') \<noteq> None
      \<longrightarrow> \<not> (\<exists>c0 cs. buffer s' = Some (c0 # cs) \<and> CODEDOC_RE c0 = None \<and> c0 \<noteq> ''>>'')"
  proof (intro allI impI)
    fix xs l' ys s'
    assume a: "ls = xs @ l' # ys \<and> process_lines xs fp1 = Inr s' \<and> CLASS_RE (strip l') \<noteq> None"
    then have "l # ls = (l # xs) @ l' # ys \<and> process_lines (l # xs) fp = Inr s' \<and>
        CLASS_RE (strip l') \<noteq> None"
      using s by simp
    with Cons.prems(2)
    show "\<not> (\<exists>c0 cs. buffer s' = Some (c0 # cs) \<and> CODEDOC_RE c0 = None \<and> c0 \<noteq> ''>>'')"
      by blast
  qed
  have "current_class fp' = current_class fp1"
    by (rule Cons.IH [OF r rest])
  also have "\<dots> = current_class fp"
    by (rule process_line_current_class [OF s]) (use here in blast)
  finally show ?case .
qed


lemma process_lines_comments:
  "\<forall>l\<in>set cs. COMMENT_RE (strip l) \<noteq> None \<Longrightarrow>
   \<exists>b. process_lines cs fp = Inr (fp\<lparr>buffer := b\<rparr>)"
proof (induction cs arbitrary: fp)
  case Nil
  have "process_lines [] fp = Inr (fp\<lparr>buffer := buffer fp\<rparr>)"
    by simp
  then show ?case ..
next
  case (Cons l cs)
  from Cons.prems obtain g where g: "COMMENT_RE (strip l) = Some g"
    by auto
  let ?fp = "fp\<lparr>buffer := Some ((case buffer fp of None \<Rightarrow> [] | Some b \<Rightarrow> b)
                                 @ [case g of None \<Rightarrow> [] | Some t \<Rightarrow> t])\<rparr>"
  from Cons.prems have "\<forall>l\<in>set cs. COMMENT_RE (strip l) \<noteq> None"
    by simp
  from Cons.IH [OF this, of ?fp] obtain b where "process_lines cs ?fp = Inr (?fp\<lparr>buffer := b\<rparr>)"
    by blast
  then have "process_lines (l # cs) fp = Inr (fp\<lparr>buffer := b\<rparr>)"
    by (simp add: process_line_comment [OF g])
  then show ?case ..
qed

lemma process_trailing_comments:
  assumes "\<forall>l\<in>set cs. COMMENT_RE (strip l) \<noteq> None"
  shows "case process ls fp of
           Inl e \<Rightarrow> process (ls @ cs) fp = Inl e
         | Inr fp' \<Rightarrow> \<exists>b. process (ls @ cs) fp = Inr (fp'\<lparr>buffer := b\<rparr>)"
proof (cases "process ls fp")
  case (Inl e)
  then show ?thesis
    by (simp add: process_def process_lines_append)
next
  case (Inr fp')
  from process_lines_comments [OF assms, of fp'] obtain b
    where "process_lines cs fp' = Inr (fp'\<lparr>buffer := b\<rparr>)" ..
  with Inr have "process (ls @ cs) fp = Inr (fp'\<lparr>buffer := b\<rparr>)"
    by (simp add: process_def process_lines_append)
  with Inr show ?thesis
    by auto
qed


section \<open>The steps, forwards\<close>

lemma step_codedoc:
  assumes "COMMENT_RE line = None" and "buffer fp = Some (b0 # bs)"
    and "CODEDOC_RE b0 = Some token"
  shows "process_line line fp =
     Inr (fp\<lparr>last_codedoc := Some (fst (file_node (''_codedoc/'' @ token @ ''.txt'') Node (root fp))),
              root := add_text (fst (file_node (''_codedoc/'' @ token @ ''.txt'') Node (root fp))) bs
                        (snd (file_node (''_codedoc/'' @ token @ ''.txt'') Node (root fp))),
              post_state := PyNone, buffer := None\<rparr>)"
proof -
  have "process_post_comment line (fp\<lparr>post_state := PyNone\<rparr>) =
      Inr (fp\<lparr>post_state := PyNone,
               last_codedoc := Some (fst (file_node (''_codedoc/'' @ token @ ''.txt'') Node (root fp))),
               root := add_text (fst (file_node (''_codedoc/'' @ token @ ''.txt'') Node (root fp))) bs
                        (snd (file_node (''_codedoc/'' @ token @ ''.txt'') Node (root fp)))\<rparr>)"
    using assms(2,3)
    by (subst route_codedoc [where ?b0.0 = b0 and bs = bs and token = token])
       (simp_all split: prod.splits)
  then show ?thesis
    unfolding process_line_route [OF assms(1,2)] by simp
qed

lemma step_continue:
  assumes "COMMENT_RE line = None" and "buffer fp = Some (''>>'' # bs)"
    and "last_codedoc fp = Some a"
  shows "process_line line fp =
     Inr (fp\<lparr>root := add_text a bs (root fp), post_state := PyNone, buffer := None\<rparr>)"
  unfolding process_line_route [OF assms(1,2)]
  using assms(2,3) by (simp add: route_continue)

lemma step_class:
  assumes "COMMENT_RE line = None" and "buffer fp = Some (b0 # bs)"
    and "CODEDOC_RE b0 = None" and "b0 \<noteq> ''>>''" and "CLASS_RE line = Some cname"
    and "modulename (path fp) = Inr mn"
  shows "process_line line fp =
     Inr (fp\<lparr>root := add_text (length (store (snd (module_node mn (root fp))))) (b0 # bs)
                        (add (fst (module_node mn (root fp)))
                           (Child (length (store (snd (module_node mn (root fp))))))
                           (snd (new (ClassNode (fst (module_node mn (root fp))) cname [])
                                   (snd (module_node mn (root fp)))))),
              current_class := Some (length (store (snd (module_node mn (root fp))))),
              post_state := PyClass, buffer := None\<rparr>)"
proof -
  have md: "module_doc (fp\<lparr>post_state := PyNone\<rparr>) =
      Inr (fst (module_node mn (root fp)),
           fp\<lparr>post_state := PyNone, root := snd (module_node mn (root fp))\<rparr>)"
    using assms(6) by (simp add: module_doc_def split: prod.splits)
  have "process_post_comment line (fp\<lparr>post_state := PyNone\<rparr>) =
      Inr (fp\<lparr>root := add_text (length (store (snd (module_node mn (root fp))))) (b0 # bs)
                        (add (fst (module_node mn (root fp)))
                           (Child (length (store (snd (module_node mn (root fp))))))
                           (snd (new (ClassNode (fst (module_node mn (root fp))) cname [])
                                   (snd (module_node mn (root fp)))))),
              current_class := Some (length (store (snd (module_node mn (root fp))))),
              post_state := PyClass\<rparr>)"
    using assms(2-5)
    by (subst route_class [where ?b0.0 = b0 and bs = bs and cname = cname])
       (simp_all add: md new_def)
  then show ?thesis
    unfolding process_line_route [OF assms(1,2)] by simp
qed

lemma step_attribute:
  assumes "COMMENT_RE line = None" and "buffer fp = Some (b0 # bs)"
    and "CODEDOC_RE b0 = None" and "b0 \<noteq> ''>>''" and "CLASS_RE line = None"
    and "current_class fp = Some c" and "METHOD_RE line = None"
    and "(case GETTER_RE line of Some g \<Rightarrow> Some g | None \<Rightarrow> ATTRIBUTE_RE line) = Some aname"
  shows "process_line line fp =
     Inr (fp\<lparr>root := add c (Child (length (store (root fp))))
                        (add_text (length (store (root fp))) (b0 # bs)
                           (snd (new (AttributeNode c aname) (root fp)))),
              post_state := PyNone, buffer := None\<rparr>)"
proof -
  have "process_post_comment line (fp\<lparr>post_state := PyNone\<rparr>) =
      Inr (fp\<lparr>post_state := PyNone,
               root := add c (Child (length (store (root fp))))
                        (add_text (length (store (root fp))) (b0 # bs)
                           (snd (new (AttributeNode c aname) (root fp))))\<rparr>)"
    using assms(2-8)
    by (subst route_attribute [where ?b0.0 = b0 and bs = bs and c = c and aname = aname])
       (simp_all add: new_def)
  then show ?thesis
    unfolding process_line_route [OF assms(1,2)] by simp
qed

lemma step_data:
  assumes "COMMENT_RE line = None" and "buffer fp = Some (b0 # bs)"
    and "CODEDOC_RE b0 = None" and "b0 \<noteq> ''>>''" and "CLASS_RE line = None"
    and "current_class fp = None \<or>
           (METHOD_RE line = None \<and> GETTER_RE line = None \<and> ATTRIBUTE_RE line = None)"
    and "EXPORT_LET_RE line = Some dname" and "modulename (path fp) = Inr mn"
  shows "process_line line fp =
     Inr (fp\<lparr>root := add (fst (module_node mn (root fp)))
                        (Child (length (store (snd (module_node mn (root fp))))))
                        (add_text (length (store (snd (module_node mn (root fp))))) (b0 # bs)
                           (snd (new (DataNode (fst (module_node mn (root fp))) dname)
                                   (snd (module_node mn (root fp)))))),
              post_state := PyNone, buffer := None\<rparr>)"
proof -
  have md: "module_doc (fp\<lparr>post_state := PyNone\<rparr>) =
      Inr (fst (module_node mn (root fp)),
           fp\<lparr>post_state := PyNone, root := snd (module_node mn (root fp))\<rparr>)"
    using assms(8) by (simp add: module_doc_def split: prod.splits)
  have "process_post_comment line (fp\<lparr>post_state := PyNone\<rparr>) =
      Inr (fp\<lparr>post_state := PyNone,
               root := add (fst (module_node mn (root fp)))
                        (Child (length (store (snd (module_node mn (root fp))))))
                        (add_text (length (store (snd (module_node mn (root fp))))) (b0 # bs)
                           (snd (new (DataNode (fst (module_node mn (root fp))) dname)
                                   (snd (module_node mn (root fp))))))\<rparr>)"
    using assms(2-7)
    by (subst route_data [where ?b0.0 = b0 and bs = bs and dname = dname])
       (simp_all add: md new_def)
  then show ?thesis
    unfolding process_line_route [OF assms(1,2)] by simp
qed

lemma step_nomatch:
  assumes "COMMENT_RE line = None" and "buffer fp = Some (b0 # bs)"
    and "CODEDOC_RE b0 = None" and "b0 \<noteq> ''>>''" and "CLASS_RE line = None"
    and "current_class fp = None \<or>
           (METHOD_RE line = None \<and> GETTER_RE line = None \<and> ATTRIBUTE_RE line = None)"
    and "EXPORT_LET_RE line = None"
  shows "process_line line fp = Inr (fp\<lparr>post_state := PyNone, buffer := None\<rparr>)"
proof -
  have "process_post_comment line (fp\<lparr>post_state := PyNone\<rparr>) = Inr (fp\<lparr>post_state := PyNone\<rparr>)"
    using assms(2-7) by (intro route_nothing [where ?b0.0 = b0 and bs = bs]) simp_all
  then show ?thesis
    unfolding process_line_route [OF assms(1,2)] by simp
qed

lemma file_node_modules [simp]: "modules (snd (file_node f k r)) = modules r"
  by (cases "map_of (files r) f") (simp_all add: file_node_old file_node_new)

lemma module_node_keys:
  "fst ` set (modules (snd (module_node mn r))) = insert mn (fst ` set (modules r))"
proof (cases "map_of (modules r) mn")
  case None
  show ?thesis
    by (simp add: module_node_new [OF None])
next
  case (Some a)
  then have "mn \<in> fst ` set (modules r)"
    by (metis map_of_eq_None_iff option.distinct(1))
  with Some show ?thesis
    by (auto simp: module_node_old)
qed

lemma module_node_distinct:
  "distinct (map fst (modules r)) \<Longrightarrow> distinct (map fst (modules (snd (module_node mn r))))"
proof (cases "map_of (modules r) mn")
  case None
  assume "distinct (map fst (modules r))"
  moreover from None have "mn \<notin> fst ` set (modules r)"
    by (simp add: map_of_eq_None_iff)
  ultimately show ?thesis
    by (simp add: module_node_new [OF None])
qed (simp add: module_node_old)

section \<open>The last narrative node\<close>




section \<open>Runs over the same files\<close>

lemma process_line_distinct_modules:
  assumes "process_line line fp = Inr fp'" and "distinct (map fst (modules (root fp)))"
  shows "distinct (map fst (modules (root fp')))"
  using assms(1)
proof (cases rule: process_line_cases)
  case (comment g)
  show ?thesis unfolding comment(2) using assms(2) by simp
next
  case skip
  then show ?thesis using assms(2) by simp
next
  case (codedoc b0 bs token F)
  show ?thesis unfolding codedoc(5) codedoc(4) using assms(2) by simp
next
  case (continue bs a)
  show ?thesis unfolding continue(4) using assms(2) by simp
next
  case (klass b0 bs cname mn M c)
  show ?thesis
    unfolding klass(9) klass(7) using module_node_distinct [OF assms(2), of mn] by simp
next
  case (meth b0 bs c sig n)
  show ?thesis unfolding meth(9) using assms(2) by simp
next
  case (attribute b0 bs c aname n)
  show ?thesis unfolding attribute(10) using assms(2) by simp
next
  case (data b0 bs dname mn M n)
  show ?thesis
    unfolding data(11) data(9) using module_node_distinct [OF assms(2), of mn] by simp
next
  case (nomatch b0 bs)
  show ?thesis unfolding nomatch(8) using assms(2) by simp
qed

lemma process_lines_distinct_modules:
  "process_lines ls fp = Inr fp' \<Longrightarrow> distinct (map fst (modules (root fp))) \<Longrightarrow>
   distinct (map fst (modules (root fp')))"
proof (induction ls arbitrary: fp)
  case Nil
  then show ?case by simp
next
  case (Cons l ls)
  from Cons.prems(1) obtain fp1 where s: "process_line (strip l) fp = Inr fp1"
    and r: "process_lines ls fp1 = Inr fp'"
    by (auto split: sum.splits)
  show ?case
    by (rule Cons.IH [OF r process_line_distinct_modules [OF s Cons.prems(2)]])
qed

lemma main_loop_distinct_modules:
  "main_loop fs r = Inr r' \<Longrightarrow> distinct (map fst (modules r)) \<Longrightarrow>
   distinct (map fst (modules r'))"
proof (induction fs arbitrary: r)
  case Nil
  then show ?case by simp
next
  case (Cons f fs)
  obtain p ls where f: "f = (p, ls)" by (cases f)
  from Cons.prems(1) f obtain fp where s: "process ls (FileProcessor_init p r) = Inr fp"
    and r: "main_loop fs (root fp) = Inr r'"
    by (auto split: sum.splits)
  have "distinct (map fst (modules (root fp)))"
    using s Cons.prems(2)
    by (auto simp: process_def FileProcessor_init_def
             intro: process_lines_distinct_modules [where fp' = fp])
  from Cons.IH [OF r this] show ?case .
qed

lemma process_line_sim_case:
  assumes "process_line line fp = Inr fp1"
    and "buffer gp = buffer fp" and "path gp = path fp"
    and "current_class gp = None \<longleftrightarrow> current_class fp = None"
    and "last_codedoc gp = None \<longleftrightarrow> last_codedoc fp = None"
  shows "case process_line line gp of
           Inl e \<Rightarrow> False
         | Inr gp1 \<Rightarrow>
             \<exists>K. buffer gp1 = buffer fp1 \<and> path gp1 = path fp1 \<and>
               (current_class gp1 = None \<longleftrightarrow> current_class fp1 = None) \<and>
               (last_codedoc gp1 = None \<longleftrightarrow> last_codedoc fp1 = None) \<and>
               fst ` set (modules (root fp1)) = fst ` set (modules (root fp)) \<union> K \<and>
               fst ` set (modules (root gp1)) = fst ` set (modules (root gp)) \<union> K"
  using assms(1)
proof (cases rule: process_line_cases)
  case (comment g)
  show ?thesis
    unfolding comment(2) process_line_comment [OF comment(1)]
    using assms(2-5) by (simp; intro exI [of _ "{}"]; simp)
next
  case skip
  have "process_line line gp = Inr gp"
    using skip assms(2) by (simp add: process_line_skip)
  then show ?thesis
    unfolding skip(3) using assms(2-5) by (simp; intro exI [of _ "{}"]; simp)
next
  case (codedoc b0 bs token F)
  have b: "buffer gp = Some (b0 # bs)"
    using codedoc(2) assms(2) by simp
  show ?thesis
    unfolding codedoc(5) step_codedoc [OF codedoc(1) b codedoc(3)]
    using assms(2-5) by (simp add: codedoc(4); intro exI [of _ "{}"]; simp)
next
  case (continue bs a)
  have b: "buffer gp = Some (''>>'' # bs)"
    using continue(2) assms(2) by simp
  from continue(3) assms(5) obtain a' where a': "last_codedoc gp = Some a'"
    by (cases "last_codedoc gp") auto
  show ?thesis
    unfolding continue(4) step_continue [OF continue(1) b a']
    using assms(2-5) a' continue(3) by (simp; intro exI [of _ "{}"]; simp)
next
  case (klass b0 bs cname mn M c)
  have b: "buffer gp = Some (b0 # bs)"
    using klass(2) assms(2) by simp
  have m: "modulename (path gp) = Inr mn"
    using klass(6) assms(3) by simp
  show ?thesis
    unfolding klass(9) step_class [OF klass(1) b klass(3,4,5) m]
    using assms(2-5)
    by (simp add: klass(7) module_node_keys; intro exI [of _ "{mn}"]; simp)
next
  case (meth b0 bs c sig n)
  have b: "buffer gp = Some (b0 # bs)"
    using meth(2) assms(2) by simp
  from meth(6) assms(4) obtain c' where c': "current_class gp = Some c'"
    by (cases "current_class gp") auto
  show ?thesis
    unfolding meth(9) process_line_method [OF c' b meth(3,4,7)]
    using assms(2-5) c' meth(6) by (simp; intro exI [of _ "{}"]; simp)
next
  case (attribute b0 bs c aname n)
  have b: "buffer gp = Some (b0 # bs)"
    using attribute(2) assms(2) by simp
  from attribute(6) assms(4) obtain c' where c': "current_class gp = Some c'"
    by (cases "current_class gp") auto
  show ?thesis
    unfolding attribute(10) step_attribute [OF attribute(1) b attribute(3,4,5) c' attribute(7,8)]
    using assms(2-5) c' attribute(6) by (simp; intro exI [of _ "{}"]; simp)
next
  case (data b0 bs dname mn M n)
  have b: "buffer gp = Some (b0 # bs)"
    using data(2) assms(2) by simp
  have m: "modulename (path gp) = Inr mn"
    using data(8) assms(3) by simp
  have cc: "current_class gp = None \<or>
           (METHOD_RE line = None \<and> GETTER_RE line = None \<and> ATTRIBUTE_RE line = None)"
    using data(6) assms(4) by blast
  show ?thesis
    unfolding data(11) step_data [OF data(1) b data(3,4,5) cc data(7) m]
    using assms(2-5)
    by (simp add: data(9) module_node_keys; intro exI [of _ "{mn}"]; simp)
next
  case (nomatch b0 bs)
  have b: "buffer gp = Some (b0 # bs)"
    using nomatch(2) assms(2) by simp
  have cc: "current_class gp = None \<or>
           (METHOD_RE line = None \<and> GETTER_RE line = None \<and> ATTRIBUTE_RE line = None)"
    using nomatch(6) assms(4) by blast
  show ?thesis
    unfolding nomatch(8) step_nomatch [OF nomatch(1) b nomatch(3,4,5) cc nomatch(7)]
    using assms(2-5) by (simp; intro exI [of _ "{}"]; simp)
qed

lemma process_line_sim:
  assumes "process_line line fp = Inr fp1"
    and "buffer gp = buffer fp" and "path gp = path fp"
    and "current_class gp = None \<longleftrightarrow> current_class fp = None"
    and "last_codedoc gp = None \<longleftrightarrow> last_codedoc fp = None"
  shows "\<exists>gp1 K. process_line line gp = Inr gp1 \<and>
           buffer gp1 = buffer fp1 \<and> path gp1 = path fp1 \<and>
           (current_class gp1 = None \<longleftrightarrow> current_class fp1 = None) \<and>
           (last_codedoc gp1 = None \<longleftrightarrow> last_codedoc fp1 = None) \<and>
           fst ` set (modules (root fp1)) = fst ` set (modules (root fp)) \<union> K \<and>
           fst ` set (modules (root gp1)) = fst ` set (modules (root gp)) \<union> K"
  using process_line_sim_case [OF assms]
  by (cases "process_line line gp") auto

lemma process_lines_sim:
  "process_lines ls fp = Inr fp1 \<Longrightarrow> buffer gp = buffer fp \<Longrightarrow> path gp = path fp \<Longrightarrow>
   (current_class gp = None \<longleftrightarrow> current_class fp = None) \<Longrightarrow>
   (last_codedoc gp = None \<longleftrightarrow> last_codedoc fp = None) \<Longrightarrow>
   \<exists>gp1 K. process_lines ls gp = Inr gp1 \<and>
     fst ` set (modules (root fp1)) = fst ` set (modules (root fp)) \<union> K \<and>
     fst ` set (modules (root gp1)) = fst ` set (modules (root gp)) \<union> K"
proof (induction ls arbitrary: fp gp)
  case Nil
  then show ?case
    by (intro exI [of _ gp] exI [of _ "{}"]) simp
next
  case (Cons l ls)
  from Cons.prems(1) obtain fp' where s: "process_line (strip l) fp = Inr fp'"
    and r: "process_lines ls fp' = Inr fp1"
    by (auto split: sum.splits)
  from process_line_sim [OF s Cons.prems(2-5)]
  obtain gp' K1 where g: "process_line (strip l) gp = Inr gp'"
    and rel: "buffer gp' = buffer fp'" "path gp' = path fp'"
      "current_class gp' = None \<longleftrightarrow> current_class fp' = None"
      "last_codedoc gp' = None \<longleftrightarrow> last_codedoc fp' = None"
    and k1: "fst ` set (modules (root fp')) = fst ` set (modules (root fp)) \<union> K1"
      "fst ` set (modules (root gp')) = fst ` set (modules (root gp)) \<union> K1"
    by (elim exE conjE) (rule that, assumption+)
  from Cons.IH [OF r rel]
  obtain gp1 K2 where g1: "process_lines ls gp' = Inr gp1"
    and k2: "fst ` set (modules (root fp1)) = fst ` set (modules (root fp')) \<union> K2"
      "fst ` set (modules (root gp1)) = fst ` set (modules (root gp')) \<union> K2"
    by blast
  have "process_lines (l # ls) gp = Inr gp1"
    using g g1 by simp
  moreover have "fst ` set (modules (root fp1)) = fst ` set (modules (root fp)) \<union> (K1 \<union> K2)"
    unfolding k2(1) k1(1) by (simp add: Un_assoc)
  moreover have "fst ` set (modules (root gp1)) = fst ` set (modules (root gp)) \<union> (K1 \<union> K2)"
    unfolding k2(2) k1(2) by (simp add: Un_assoc)
  ultimately show ?case
    by blast
qed

lemma process_sim:
  assumes "process ls (FileProcessor_init p r) = Inr fp"
  shows "\<exists>gp K. process ls (FileProcessor_init p r') = Inr gp \<and>
           fst ` set (modules (root fp)) = fst ` set (modules r) \<union> K \<and>
           fst ` set (modules (root gp)) = fst ` set (modules r') \<union> K"
proof -
  let ?f = "(FileProcessor_init p r)\<lparr>current_class := None\<rparr>"
  let ?g = "(FileProcessor_init p r')\<lparr>current_class := None\<rparr>"
  have a: "process_lines ls ?f = Inr fp"
    using assms by (simp add: process_def)
  have "buffer ?g = buffer ?f" "path ?g = path ?f"
    "current_class ?g = None \<longleftrightarrow> current_class ?f = None"
    "last_codedoc ?g = None \<longleftrightarrow> last_codedoc ?f = None"
    by (simp_all add: FileProcessor_init_def)
  from process_lines_sim [OF a this]
  show ?thesis
    by (simp add: process_def FileProcessor_init_def)
qed

lemma main_loop_modules:
  "main_loop fs r = Inr r' \<Longrightarrow>
   (\<forall>(p, ls)\<in>set fs. \<exists>fp0. process ls (FileProcessor_init p RootNode_init) = Inr fp0) \<and>
   fst ` set (modules r') =
     fst ` set (modules r) \<union>
     (\<Union>(p, ls)\<in>set fs. \<Union>fp0\<in>{fp0. process ls (FileProcessor_init p RootNode_init) = Inr fp0}.
         fst ` set (modules (root fp0)))"
proof (induction fs arbitrary: r)
  case Nil
  then show ?case by simp
next
  case (Cons f fs)
  obtain p ls where f: "f = (p, ls)" by (cases f)
  from Cons.prems f obtain fp where s: "process ls (FileProcessor_init p r) = Inr fp"
    and m: "main_loop fs (root fp) = Inr r'"
    by (auto split: sum.splits)
  from process_sim [OF s, of RootNode_init]
  obtain gp K where g: "process ls (FileProcessor_init p RootNode_init) = Inr gp"
    and k: "fst ` set (modules (root fp)) = fst ` set (modules r) \<union> K"
      "fst ` set (modules (root gp)) = K"
    by (auto simp: RootNode_init_def)
  have one: "(\<Union>fp0\<in>{fp0. process ls (FileProcessor_init p RootNode_init) = Inr fp0}.
         fst ` set (modules (root fp0))) = K"
    using g k(2) by auto
  note ih = Cons.IH [OF m]
  show ?case
    unfolding f using ih g one k(1) by (auto simp: Un_assoc)
qed

lemma main_loop_succeeds:
  "\<forall>(p, ls)\<in>set fs. \<exists>fp0. process ls (FileProcessor_init p RootNode_init) = Inr fp0 \<Longrightarrow>
   \<exists>r'. main_loop fs r = Inr r'"
proof (induction fs arbitrary: r)
  case Nil
  then show ?case by simp
next
  case (Cons f fs)
  obtain p ls where f: "f = (p, ls)" by (cases f)
  from Cons.prems f obtain fp0 where "process ls (FileProcessor_init p RootNode_init) = Inr fp0"
    by auto
  from process_sim [OF this, of r]
  obtain gp where g: "process ls (FileProcessor_init p r) = Inr gp"
    by blast
  from Cons.prems have "\<forall>(p, ls)\<in>set fs. \<exists>fp0. process ls (FileProcessor_init p RootNode_init) = Inr fp0"
    by simp
  from Cons.IH [OF this, of "root gp"] obtain r' where "main_loop fs (root gp) = Inr r'" ..
  with g f show ?case
    by simp
qed

lemma main_loop_same_files:
  assumes "main_loop fs RootNode_init = Inr r" and "set fs' = set fs"
  shows "\<exists>r'. main_loop fs' RootNode_init = Inr r' \<and>
           sort (map fst (modules r')) = sort (map fst (modules r))"
proof -
  note a = main_loop_modules [OF assms(1)]
  from a assms(2) have "\<forall>(p, ls)\<in>set fs'. \<exists>fp0. process ls (FileProcessor_init p RootNode_init) = Inr fp0"
    by simp
  from main_loop_succeeds [OF this, of RootNode_init]
  obtain r' where r': "main_loop fs' RootNode_init = Inr r'" ..
  note b = main_loop_modules [OF r']
  have s: "set (map fst (modules r')) = set (map fst (modules r))"
    using a b assms(2) by simp
  have d: "distinct (map fst (modules r))" "distinct (map fst (modules r'))"
    using main_loop_distinct_modules [OF assms(1)] main_loop_distinct_modules [OF r']
    by (simp_all add: RootNode_init_def)
  have "sort (map fst (modules r')) = sort (map fst (modules r))"
    by (rule sorted_distinct_set_unique) (use s d in simp_all)
  with r' show ?thesis
    by blast
qed


section \<open>The argument string of a class\<close>

lemma process_line_new_class:
  assumes "process_line line fp = Inr fp'"
    and "length (store (root fp)) \<le> n" and "n < length (store (root fp'))"
    and "kind (store (root fp') ! n) = ClassNode m cname args"
  shows "args = []"
  using assms(1)
proof (cases rule: process_line_cases)
  case (codedoc b0 bs token F)
  with assms(2-4) file_node_store [of "''_codedoc/'' @ token @ ''.txt''" Node "root fp"]
  show ?thesis
    by (auto simp: nth_append split: if_splits)
next
  case (klass b0 bs cn mn M k)
  with assms(2-4) module_node_store [of mn "root fp"]
  show ?thesis
    by (auto simp: nth_append less_Suc_eq split: if_splits)
next
  case (meth b0 bs k sg j)
  with assms(2-4) show ?thesis
    by (auto simp: nth_append less_Suc_eq split: if_splits)
next
  case (attribute b0 bs k aname j)
  with assms(2-4) show ?thesis
    by (auto simp: nth_append less_Suc_eq split: if_splits)
next
  case (data b0 bs dname mn M j)
  with assms(2-4) module_node_store [of mn "root fp"]
  show ?thesis
    by (auto simp: nth_append less_Suc_eq split: if_splits)
qed (use assms(2-4) in auto)

lemma process_line_class_arguments:
  assumes "process_line line fp = Inr fp'"
    and "\<forall>n<length (store (root fp)). \<forall>m cname args.
           kind (store (root fp) ! n) = ClassNode m cname args \<longrightarrow> args = []"
  shows "\<forall>n<length (store (root fp')). \<forall>m cname args.
           kind (store (root fp') ! n) = ClassNode m cname args \<longrightarrow> args = []"
proof (intro allI impI)
  fix n m cname args
  assume n: "n < length (store (root fp'))"
    and k: "kind (store (root fp') ! n) = ClassNode m cname args"
  show "args = []"
  proof (cases "n < length (store (root fp))")
    case True
    with process_line_kinds [OF assms(1)] k
    have "kind (store (root fp) ! n) = ClassNode m cname args"
      by simp
    with assms(2) True show ?thesis
      by blast
  next
    case False
    then have "length (store (root fp)) \<le> n"
      by simp
    from process_line_new_class [OF assms(1) this n k] show ?thesis .
  qed
qed

lemma process_lines_class_arguments:
  "process_lines ls fp = Inr fp' \<Longrightarrow>
   \<forall>n<length (store (root fp)). \<forall>m cname args.
      kind (store (root fp) ! n) = ClassNode m cname args \<longrightarrow> args = [] \<Longrightarrow>
   \<forall>n<length (store (root fp')). \<forall>m cname args.
      kind (store (root fp') ! n) = ClassNode m cname args \<longrightarrow> args = []"
proof (induction ls arbitrary: fp)
  case Nil
  then show ?case by simp
next
  case (Cons l ls)
  from Cons.prems(1) obtain fp1 where s: "process_line (strip l) fp = Inr fp1"
    and r: "process_lines ls fp1 = Inr fp'"
    by (auto split: sum.splits)
  show ?case
    by (rule Cons.IH [OF r process_line_class_arguments [OF s Cons.prems(2)]])
qed

lemma main_loop_class_arguments:
  "main_loop fs r = Inr r' \<Longrightarrow>
   \<forall>n<length (store r). \<forall>m cname args.
      kind (store r ! n) = ClassNode m cname args \<longrightarrow> args = [] \<Longrightarrow>
   \<forall>n<length (store r'). \<forall>m cname args.
      kind (store r' ! n) = ClassNode m cname args \<longrightarrow> args = []"
proof (induction fs arbitrary: r)
  case Nil
  then show ?case by simp
next
  case (Cons f fs)
  obtain p ls where f: "f = (p, ls)" by (cases f)
  from Cons.prems(1) f obtain fp where s: "process ls (FileProcessor_init p r) = Inr fp"
    and m: "main_loop fs (root fp) = Inr r'"
    by (auto split: sum.splits)
  from s have s': "process_lines ls ((FileProcessor_init p r)\<lparr>current_class := None\<rparr>) = Inr fp"
    by (simp add: process_def)
  have "\<forall>n<length (store (root fp)). \<forall>m cname args.
      kind (store (root fp) ! n) = ClassNode m cname args \<longrightarrow> args = []"
    by (rule process_lines_class_arguments [OF s'])
       (use Cons.prems(2) in \<open>simp add: FileProcessor_init_def\<close>)
  from Cons.IH [OF m this] show ?case .
qed

lemma class_directive_never_has_arguments:
  assumes "main fs = Inr (r, idx)" and "n < length (store r)"
    and "kind (store r ! n) = ClassNode m cname args"
  shows "directive (store r) n = Inr (''js:class:: '' @ cname @ ''()'')"
proof -
  from assms(1) have "main_loop fs RootNode_init = Inr r"
    by (auto simp: main_def split: sum.splits)
  from main_loop_class_arguments [OF this] assms(2,3) have "args = []"
    by (simp add: RootNode_init_def)
  with assms(3) show ?thesis
    by (simp add: directive_def)
qed

section \<open>The claims\<close>

text \<open>
  C1. The constructor line after a documented class declaration should fill the class's
  argument string. The scanner looks at a line that is no comment only when a buffer is
  open, and resets \<^verbatim>\<open>post_state\<close> before each routing, so the branch that reads the
  constructor line is never entered: the directive stays \<open>js:class:: Foo()\<close>, as it does
  for every class of every run (\<open>class_directive_never_has_arguments\<close>).
\<close>

theorem constructor_arguments_are_not_captured:
  "main_loop [(''src/foo.js'', [''// Doc'', ''class Foo {'', ''  constructor(a, b) {''])]
     RootNode_init
   = Inr \<lparr>modules = [(''foo'', 0)], files = [(''modules/foo.rst'', 0)],
          store = [\<lparr>kind = ModuleNode ''foo'', contents = [Child 1]\<rparr>,
                   \<lparr>kind = ClassNode 0 ''Foo'' [], contents = [Text ''Doc'']\<rparr>]\<rparr> \<and>
   directive [\<lparr>kind = ModuleNode ''foo'', contents = [Child 1]\<rparr>,
              \<lparr>kind = ClassNode 0 ''Foo'' [], contents = [Text ''Doc'']\<rparr>] 1
   = Inr ''js:class:: Foo()''"
  by code_simp




text \<open>
  C3 as stated fails: a class declaration that no comment block precedes does not end
  the active class. The method documented inside \<open>class B\<close> is filed under \<open>A\<close>.
\<close>

theorem undocumented_class_keeps_previous_active_class:
  "main_loop [(''src/a.js'', [''// Doc A'', ''class A {'', ''}'', ''class B {'',
                              ''  // Does m.'', ''  m() {''])] RootNode_init
   = Inr \<lparr>modules = [(''a'', 0)], files = [(''modules/a.rst'', 0)],
          store = [\<lparr>kind = ModuleNode ''a'', contents = [Child 1]\<rparr>,
                   \<lparr>kind = ClassNode 0 ''A'' [], contents = [Text ''Doc A'', Child 2]\<rparr>,
                   \<lparr>kind = MethodNode 1 ''m()'', contents = [Text ''Does m.'']\<rparr>]\<rparr> \<and>
   index [\<lparr>kind = ModuleNode ''a'', contents = [Child 1]\<rparr>,
          \<lparr>kind = ClassNode 0 ''A'' [], contents = [Text ''Doc A'', Child 2]\<rparr>,
          \<lparr>kind = MethodNode 1 ''m()'', contents = [Text ''Does m.'']\<rparr>] 2
   = Inr ''a; A#m()''"
  by code_simp

text \<open>
  C3, as the code has it. The active class is the ClassNode made for the last class
  declaration line that was the triggering line of a comment block (one that is no
  narrative block). It stays the active class over every later line of the file until
  the next such line; a class declaration line that no comment block precedes is not
  looked at and leaves it in place.
\<close>

theorem active_class_is_last_documented_class:
  assumes "buffer fp = Some (b0 # bs)" and "CODEDOC_RE b0 = None" and "b0 \<noteq> ''>>''"
    and "COMMENT_RE (strip l1) = None" and "CLASS_RE (strip l1) = Some cname"
    and "process_lines (l1 # mid) fp = Inr fp2"
    and "\<forall>xs l ys s. mid = xs @ l # ys \<and> process_lines (l1 # xs) fp = Inr s \<and>
           CLASS_RE (strip l) \<noteq> None
           \<longrightarrow> \<not> (\<exists>c0 cs. buffer s = Some (c0 # cs) \<and> CODEDOC_RE c0 = None \<and> c0 \<noteq> ''>>'')"
  shows "\<exists>c m. current_class fp2 = Some c \<and> length (store (root fp)) \<le> c \<and>
           c < length (store (root fp2)) \<and>
           kind (store (root fp2) ! c) = ClassNode m cname []"
proof -
  from assms(6) obtain fp1 where s: "process_line (strip l1) fp = Inr fp1"
    and r: "process_lines mid fp1 = Inr fp2"
    by (auto split: sum.splits)
  from process_line_class [OF s assms(4,5,1,2,3)]
  obtain c m where c: "current_class fp1 = Some c" "length (store (root fp)) \<le> c"
    "c < length (store (root fp1))" "kind (store (root fp1) ! c) = ClassNode m cname []"
    by blast
  have mid: "\<forall>xs l ys s'. mid = xs @ l # ys \<and> process_lines xs fp1 = Inr s' \<and>
      CLASS_RE (strip l) \<noteq> None
      \<longrightarrow> \<not> (\<exists>c0 cs. buffer s' = Some (c0 # cs) \<and> CODEDOC_RE c0 = None \<and> c0 \<noteq> ''>>'')"
  proof (intro allI impI)
    fix xs l ys s'
    assume "mid = xs @ l # ys \<and> process_lines xs fp1 = Inr s' \<and> CLASS_RE (strip l) \<noteq> None"
    then have "mid = xs @ l # ys \<and> process_lines (l1 # xs) fp = Inr s' \<and>
        CLASS_RE (strip l) \<noteq> None"
      using s by simp
    with assms(7)
    show "\<not> (\<exists>c0 cs. buffer s' = Some (c0 # cs) \<and> CODEDOC_RE c0 = None \<and> c0 \<noteq> ''>>'')"
      by blast
  qed
  have cc: "current_class fp2 = Some c"
    using process_lines_current_class [OF r mid] c(1) by simp
  note k = process_lines_kinds [OF r]
  have "c < length (store (root fp2))"
    using k c(3) by linarith
  moreover have "kind (store (root fp2) ! c) = ClassNode m cname []"
    using k c(3,4) by simp
  ultimately show ?thesis
    using cc c(2) by blast
qed

theorem active_class_is_last_documented_class_witness:
  "\<exists>c m. current_class
            \<lparr>root = \<lparr>modules = [(''a'', 0)], files = [(''modules/a.rst'', 0)],
                      store = [\<lparr>kind = ModuleNode ''a'', contents = [Child 1]\<rparr>,
                               \<lparr>kind = ClassNode 0 ''A'' [], contents = [Text ''Doc A'']\<rparr>]\<rparr>,
             path = ''src/a.js'', buffer = Some [''Does m.''], current_class = Some 1,
             last_codedoc = None, post_state = PyClass\<rparr> = Some c \<and>
         kind ([\<lparr>kind = ModuleNode ''a'', contents = [Child 1]\<rparr>,
                \<lparr>kind = ClassNode 0 ''A'' [], contents = [Text ''Doc A'']\<rparr>] ! c)
           = ClassNode m ''A'' [] \<and>
         process_lines [''class A {'', ''}'', ''class B {'', ''  // Does m.'']
           \<lparr>root = RootNode_init, path = ''src/a.js'', buffer = Some [''Doc A''],
            current_class = None, last_codedoc = None, post_state = Unset\<rparr>
         = Inr \<lparr>root = \<lparr>modules = [(''a'', 0)], files = [(''modules/a.rst'', 0)],
                      store = [\<lparr>kind = ModuleNode ''a'', contents = [Child 1]\<rparr>,
                               \<lparr>kind = ClassNode 0 ''A'' [], contents = [Text ''Doc A'']\<rparr>]\<rparr>,
             path = ''src/a.js'', buffer = Some [''Does m.''], current_class = Some 1,
             last_codedoc = None, post_state = PyClass\<rparr>"
proof -
  let ?fp = "\<lparr>root = RootNode_init, path = ''src/a.js'', buffer = Some [''Doc A''],
            current_class = None, last_codedoc = None, post_state = Unset\<rparr>"
  let ?r = "\<lparr>modules = [(''a'', 0)], files = [(''modules/a.rst'', 0)],
                      store = [\<lparr>kind = ModuleNode ''a'', contents = [Child 1]\<rparr>,
                               \<lparr>kind = ClassNode 0 ''A'' [], contents = [Text ''Doc A'']\<rparr>]\<rparr>"
  let ?fp2 = "\<lparr>root = ?r, path = ''src/a.js'', buffer = Some [''Does m.''],
             current_class = Some 1, last_codedoc = None, post_state = PyClass\<rparr>"
  have h1: "buffer ?fp = Some (''Doc A'' # [])" by simp
  have h2: "CODEDOC_RE ''Doc A'' = None" "''Doc A'' \<noteq> ''>>''"
    "COMMENT_RE (strip ''class A {'') = None" "CLASS_RE (strip ''class A {'') = Some ''A''"
    by code_simp+
  have h6: "process_lines (''class A {'' # [''}'', ''class B {'', ''  // Does m.'']) ?fp = Inr ?fp2"
    by code_simp
  have e: "CLASS_RE (strip ''}'') = None" "CLASS_RE (strip ''  // Does m.'') = None"
    by code_simp+
  have p: "process_lines [''class A {'', ''}''] ?fp =
      Inr \<lparr>root = ?r, path = ''src/a.js'', buffer = None,
           current_class = Some 1, last_codedoc = None, post_state = PyClass\<rparr>"
    by code_simp
  have h7: "\<forall>xs l ys s. [''}'', ''class B {'', ''  // Does m.''] = xs @ l # ys \<and>
           process_lines (''class A {'' # xs) ?fp = Inr s \<and> CLASS_RE (strip l) \<noteq> None
           \<longrightarrow> \<not> (\<exists>c0 cs. buffer s = Some (c0 # cs) \<and> CODEDOC_RE c0 = None \<and> c0 \<noteq> ''>>'')"
  proof (intro allI impI)
    fix xs l ys s
    assume a: "[''}'', ''class B {'', ''  // Does m.''] = xs @ l # ys \<and>
           process_lines (''class A {'' # xs) ?fp = Inr s \<and> CLASS_RE (strip l) \<noteq> None"
    then have "xs = [] \<and> l = ''}'' \<or> xs = [''}''] \<and> l = ''class B {'' \<or>
        xs = [''}'', ''class B {''] \<and> l = ''  // Does m.''"
      by (auto simp: Cons_eq_append_conv)
    with a e have xs: "xs = [''}'']"
      by auto
    with a p have "buffer s = None"
      by auto
    then show "\<not> (\<exists>c0 cs. buffer s = Some (c0 # cs) \<and> CODEDOC_RE c0 = None \<and> c0 \<noteq> ''>>'')"
      by simp
  qed
  from active_class_is_last_documented_class [OF h1 h2 h6 h7]
  obtain c m where "current_class ?fp2 = Some c"
    "kind (store (root ?fp2) ! c) = ClassNode m ''A'' []"
    by blast
  with h6 show ?thesis
    by (intro exI [of _ c] exI [of _ m]) simp
qed


text \<open>
  C4 as stated fails: a comment block before a constructor line inside an active class
  does create a MethodNode.
\<close>

theorem constructor_line_creates_method_node:
  "main_loop [(''src/a.js'', [''// Doc'', ''class A {'', ''  // Creates.'',
                              ''  constructor(a, b) {''])] RootNode_init
   = Inr \<lparr>modules = [(''a'', 0)], files = [(''modules/a.rst'', 0)],
          store = [\<lparr>kind = ModuleNode ''a'', contents = [Child 1]\<rparr>,
                   \<lparr>kind = ClassNode 0 ''A'' [], contents = [Text ''Doc'', Child 2]\<rparr>,
                   \<lparr>kind = MethodNode 1 ''constructor(a, b)'',
                      contents = [Text ''Creates.'']\<rparr>]\<rparr>"
  by code_simp


text \<open>
  C4, as the code has it. With an active class and a comment block that is no narrative
  block, a MethodNode is created exactly when the stripped triggering line is
  \<open><identifier>(<args>) {\<close>, the identifier any run of word characters. A getter line
  never creates one; a \<open>constructor(<args>) {\<close> line is such a signature and creates
  the MethodNode \<open>constructor(<args>)\<close> under the active class.
\<close>

theorem method_rule_fires_on_signatures:
  assumes "current_class fp = Some c" and "buffer fp = Some (b0 # bs)"
    and "CODEDOC_RE b0 = None" and "b0 \<noteq> ''>>''"
  shows "((\<exists>fp' n cl sig. process_line (strip l) fp = Inr fp' \<and>
             length (store (root fp)) \<le> n \<and> n < length (store (root fp')) \<and>
             kind (store (root fp') ! n) = MethodNode cl sig)
          \<longleftrightarrow>
          (\<exists>ident arglist. ident \<noteq> [] \<and> (\<forall>ch\<in>set ident. is_word ch) \<and>
             newline \<notin> set arglist \<and> strip l = ident @ ''('' @ arglist @ '') {'')) \<and>
         (strip l = ''get '' @ nm @ ''() {'' \<longrightarrow>
            \<not> (\<exists>fp' n cl sig. process_line (strip l) fp = Inr fp' \<and>
                 length (store (root fp)) \<le> n \<and> n < length (store (root fp')) \<and>
                 kind (store (root fp') ! n) = MethodNode cl sig)) \<and>
         (strip l = ''constructor('' @ arglist @ '') {'' \<and> newline \<notin> set arglist \<longrightarrow>
            process_line (strip l) fp =
              Inr (fp\<lparr>root := add c (Child (length (store (root fp))))
                            (add_text (length (store (root fp))) (b0 # bs)
                               (snd (new (MethodNode c (''constructor('' @ arglist @ '')''))
                                       (root fp)))),
                      post_state := PyNone, buffer := None\<rparr>))"
proof -
  let ?created = "\<exists>fp' n cl sig. process_line (strip l) fp = Inr fp' \<and>
             length (store (root fp)) \<le> n \<and> n < length (store (root fp')) \<and>
             kind (store (root fp') ! n) = MethodNode cl sig"
  have fire: "?created" if m: "METHOD_RE (strip l) = Some sig" for sig
  proof -
    let ?n = "length (store (root fp))"
    let ?fp = "fp\<lparr>root := add c (Child ?n)
                          (add_text ?n (b0 # bs) (snd (new (MethodNode c sig) (root fp)))),
                    post_state := PyNone, buffer := None\<rparr>"
    have "process_line (strip l) fp = Inr ?fp"
      by (rule process_line_method [OF assms m])
    moreover have "kind (store (root ?fp) ! ?n) = MethodNode c sig"
      by simp
    moreover have "?n < length (store (root ?fp))"
      by simp
    ultimately show ?thesis
      by (intro exI [of _ ?fp] exI [of _ ?n] exI [of _ c] exI [of _ sig]) simp
  qed
  have only: "\<exists>sig. METHOD_RE (strip l) = Some sig" if "?created"
    using that process_line_new_method by blast
  have shape: "(\<exists>sig. METHOD_RE (strip l) = Some sig) \<longleftrightarrow>
      (\<exists>ident arglist. ident \<noteq> [] \<and> (\<forall>ch\<in>set ident. is_word ch) \<and>
             newline \<notin> set arglist \<and> strip l = ident @ ''('' @ arglist @ '') {'')"
  proof
    assume "\<exists>sig. METHOD_RE (strip l) = Some sig"
    then obtain sig w a where w: "w \<noteq> []" "\<forall>ch\<in>set w. is_word ch" "newline \<notin> set a"
      and sig: "sig = w @ ''('' @ a @ '')''"
      and l: "strip l = sig @ '' {'' \<or> strip l = sig @ '' {'' @ [newline]"
      unfolding METHOD_RE_iff by blast
    from l strip_not_newline_end [of l "sig @ '' {''"] have "strip l = sig @ '' {''"
      by simp
    with w sig show "\<exists>ident arglist. ident \<noteq> [] \<and> (\<forall>ch\<in>set ident. is_word ch) \<and>
             newline \<notin> set arglist \<and> strip l = ident @ ''('' @ arglist @ '') {''"
      by (intro exI [of _ w] exI [of _ a]) simp
  next
    assume "\<exists>ident arglist. ident \<noteq> [] \<and> (\<forall>ch\<in>set ident. is_word ch) \<and>
             newline \<notin> set arglist \<and> strip l = ident @ ''('' @ arglist @ '') {''"
    then obtain w a where w: "w \<noteq> []" "\<forall>ch\<in>set w. is_word ch" "newline \<notin> set a"
      and l: "strip l = w @ ''('' @ a @ '') {''"
      by blast
    have "METHOD_RE (strip l) = Some (w @ ''('' @ a @ '')'')"
      unfolding METHOD_RE_iff using w l by (intro exI [of _ w] exI [of _ a]) simp
    then show "\<exists>sig. METHOD_RE (strip l) = Some sig" ..
  qed
  have getter: "\<not> ?created" if g: "strip l = ''get '' @ nm @ ''() {''"
  proof
    assume ?created
    then obtain sig where "METHOD_RE (strip l) = Some sig"
      using only by blast
    then show False
      unfolding g by (simp add: METHOD_RE_other_starts(5) [simplified])
  qed
  have ctor: "METHOD_RE (strip l) = Some (''constructor('' @ arglist @ '')'')"
    if "strip l = ''constructor('' @ arglist @ '') {''" "newline \<notin> set arglist"
    unfolding METHOD_RE_iff using that
    by (intro exI [of _ "''constructor''"] exI [of _ arglist]) (simp add: is_word_def)
  show ?thesis
    using fire only shape getter process_line_method [OF assms ctor] by blast
qed

theorem method_rule_fires_on_signatures_witness:
  "process_line (strip ''  constructor(a, b) {'')
     \<lparr>root = \<lparr>modules = [(''a'', 0)], files = [(''modules/a.rst'', 0)],
               store = [\<lparr>kind = ModuleNode ''a'', contents = [Child 1]\<rparr>,
                        \<lparr>kind = ClassNode 0 ''A'' [], contents = [Text ''Doc'']\<rparr>]\<rparr>,
      path = ''src/a.js'', buffer = Some [''Creates.''], current_class = Some 1,
      last_codedoc = None, post_state = PyClass\<rparr>
   = Inr \<lparr>root = \<lparr>modules = [(''a'', 0)], files = [(''modules/a.rst'', 0)],
               store = [\<lparr>kind = ModuleNode ''a'', contents = [Child 1]\<rparr>,
                        \<lparr>kind = ClassNode 0 ''A'' [], contents = [Text ''Doc'', Child 2]\<rparr>,
                        \<lparr>kind = MethodNode 1 ''constructor(a, b)'',
                           contents = [Text ''Creates.'']\<rparr>]\<rparr>,
      path = ''src/a.js'', buffer = None, current_class = Some 1,
      last_codedoc = None, post_state = PyNone\<rparr>"
proof -
  let ?fp = "\<lparr>root = \<lparr>modules = [(''a'', 0)], files = [(''modules/a.rst'', 0)],
               store = [\<lparr>kind = ModuleNode ''a'', contents = [Child 1]\<rparr>,
                        \<lparr>kind = ClassNode 0 ''A'' [], contents = [Text ''Doc'']\<rparr>]\<rparr>,
      path = ''src/a.js'', buffer = Some [''Creates.''], current_class = Some 1,
      last_codedoc = None, post_state = PyClass\<rparr>"
  have h: "current_class ?fp = Some 1" "buffer ?fp = Some [''Creates.'']"
    "CODEDOC_RE ''Creates.'' = None" "''Creates.'' \<noteq> ''>>''"
    by code_simp+
  have l: "strip ''  constructor(a, b) {'' = ''constructor('' @ ''a, b'' @ '') {''"
    "newline \<notin> set ''a, b''"
    by code_simp+
  from method_rule_fires_on_signatures [OF h, of "''  constructor(a, b) {''" "''x''" "''a, b''"] l
  have "process_line (strip ''  constructor(a, b) {'') ?fp =
              Inr (?fp\<lparr>root := add 1 (Child (length (store (root ?fp))))
                            (add_text (length (store (root ?fp))) [''Creates.'']
                               (snd (new (MethodNode 1 (''constructor('' @ ''a, b'' @ '')''))
                                       (root ?fp)))),
                      post_state := PyNone, buffer := None\<rparr>)"
    by blast
  then show ?thesis
    by (simp add: add_def add_text_def new_def)
qed


text \<open>
  C5. A comment block whose first line is the bare marker \<open>>>\<close>, routed while the tree
  holds no narrative node (none was opened so far in the run: nodes are never removed),
  raises: the step fails, and with it the whole run.
\<close>

theorem continuation_without_open_block_aborts:
  assumes "main_loop fs RootNode_init = Inr r"
    and "process pre (FileProcessor_init p r) = Inr fp"
    and "\<forall>(k, a)\<in>set (files (root fp)). take 9 k \<noteq> ''_codedoc/''"
    and "buffer fp = Some (''>>'' # bs)"
    and "COMMENT_RE (strip l) = None"
  shows "process_line (strip l) fp = Inl AttributeError \<and>
         main (fs @ (p, pre @ l # post) # fs') = Inl AttributeError"
proof -
  let ?fp0 = "(FileProcessor_init p r)\<lparr>current_class := None\<rparr>"
  have pre: "process_lines pre ?fp0 = Inr fp"
    using assms(2) by (simp add: process_def)
  have "\<forall>a. last_codedoc ?fp0 = Some a \<longrightarrow>
           (\<exists>k. (k, a) \<in> set (files (root ?fp0)) \<and> take 9 k = ''_codedoc/'')"
    by (simp add: FileProcessor_init_def)
  from process_lines_last_codedoc [OF pre this] assms(3)
  have none: "last_codedoc fp = None"
    by (cases "last_codedoc fp") auto
  have step: "process_line (strip l) fp = Inl AttributeError"
    unfolding process_line_route [OF assms(5,4)]
    using none assms(4) by (simp add: route_continue)
  have "process (pre @ l # post) (FileProcessor_init p r) = Inl AttributeError"
    by (simp add: process_def process_lines_append pre step)
  then have "main_loop (fs @ (p, pre @ l # post) # fs') RootNode_init = Inl AttributeError"
    by (simp add: main_loop_append assms(1))
  with step show ?thesis
    by (simp add: main_def)
qed

theorem continuation_without_open_block_aborts_witness:
  "main [(''src/a.js'', [''// Doc'', ''class A {'']),
         (''src/b.js'', [''let x = 1'', ''// >>'', ''// more'', ''code'', ''// >> late'', ''z'']),
         (''src/c.js'', [''// >> foo'', ''// text'', ''y''])]
   = Inl AttributeError"
proof -
  let ?r = "\<lparr>modules = [(''a'', 0)], files = [(''modules/a.rst'', 0)],
            store = [\<lparr>kind = ModuleNode ''a'', contents = [Child 1]\<rparr>,
                     \<lparr>kind = ClassNode 0 ''A'' [], contents = [Text ''Doc'']\<rparr>]\<rparr>"
  let ?fp = "\<lparr>root = ?r, path = ''src/b.js'', buffer = Some [''>>'', ''more''],
             current_class = None, last_codedoc = None, post_state = Unset\<rparr>"
  have h1: "main_loop [(''src/a.js'', [''// Doc'', ''class A {''])] RootNode_init = Inr ?r"
    by code_simp
  have h2: "process [''let x = 1'', ''// >>'', ''// more''] (FileProcessor_init ''src/b.js'' ?r)
            = Inr ?fp"
    by code_simp
  have h3: "\<forall>(k, a)\<in>set (files (root ?fp)). take 9 k \<noteq> ''_codedoc/''"
    by simp
  have h4: "buffer ?fp = Some (''>>'' # [''more''])"
    by simp
  have h5: "COMMENT_RE (strip ''code'') = None"
    by code_simp
  from continuation_without_open_block_aborts [OF h1 h2 h3 h4 h5,
      of "[''// >> late'', ''z'']" "[(''src/c.js'', [''// >> foo'', ''// text'', ''y''])]"]
  show ?thesis by simp
qed

text \<open>
  C6. A comment block whose first line is no narrative marker, followed by a line that no
  construct rule accepts in the current state, is routed without any effect: the resolver
  returns the processor as it got it (no node, the tree and the resolver's references
  unchanged), and the scanner then clears the buffer.
\<close>

theorem unmatched_comment_block_is_dropped:
  assumes "buffer fp = Some (b0 # bs)" and "CODEDOC_RE b0 = None" and "b0 \<noteq> ''>>''"
    and "COMMENT_RE line = None" and "CLASS_RE line = None"
    and "current_class fp = None \<or>
           (METHOD_RE line = None \<and> GETTER_RE line = None \<and> ATTRIBUTE_RE line = None)"
    and "EXPORT_LET_RE line = None"
  shows "process_post_comment line (fp\<lparr>post_state := PyNone\<rparr>) = Inr (fp\<lparr>post_state := PyNone\<rparr>) \<and>
         process_line line fp = Inr (fp\<lparr>post_state := PyNone, buffer := None\<rparr>)"
proof -
  have r: "process_post_comment line (fp\<lparr>post_state := PyNone\<rparr>) = Inr (fp\<lparr>post_state := PyNone\<rparr>)"
    using assms by (intro route_nothing [where ?b0.0 = b0 and bs = bs]) simp_all
  with assms(1,4) show ?thesis
    by (simp add: process_line_route)
qed

theorem unmatched_comment_block_is_dropped_witness:
  "process_post_comment ''let x = 1''
     \<lparr>root = \<lparr>modules = [(''a'', 0)], files = [(''modules/a.rst'', 0)],
               store = [\<lparr>kind = ModuleNode ''a'', contents = [Child 1]\<rparr>,
                        \<lparr>kind = ClassNode 0 ''A'' [], contents = [Text ''doc'']\<rparr>]\<rparr>,
      path = ''src/a.js'', buffer = Some [''Doc'', ''more''], current_class = Some 1,
      last_codedoc = None, post_state = PyNone\<rparr>
   = Inr \<lparr>root = \<lparr>modules = [(''a'', 0)], files = [(''modules/a.rst'', 0)],
               store = [\<lparr>kind = ModuleNode ''a'', contents = [Child 1]\<rparr>,
                        \<lparr>kind = ClassNode 0 ''A'' [], contents = [Text ''doc'']\<rparr>]\<rparr>,
      path = ''src/a.js'', buffer = Some [''Doc'', ''more''], current_class = Some 1,
      last_codedoc = None, post_state = PyNone\<rparr> \<and>
   process_line ''let x = 1''
     \<lparr>root = \<lparr>modules = [(''a'', 0)], files = [(''modules/a.rst'', 0)],
               store = [\<lparr>kind = ModuleNode ''a'', contents = [Child 1]\<rparr>,
                        \<lparr>kind = ClassNode 0 ''A'' [], contents = [Text ''doc'']\<rparr>]\<rparr>,
      path = ''src/a.js'', buffer = Some [''Doc'', ''more''], current_class = Some 1,
      last_codedoc = None, post_state = PyClass\<rparr>
   = Inr \<lparr>root = \<lparr>modules = [(''a'', 0)], files = [(''modules/a.rst'', 0)],
               store = [\<lparr>kind = ModuleNode ''a'', contents = [Child 1]\<rparr>,
                        \<lparr>kind = ClassNode 0 ''A'' [], contents = [Text ''doc'']\<rparr>]\<rparr>,
      path = ''src/a.js'', buffer = None, current_class = Some 1,
      last_codedoc = None, post_state = PyNone\<rparr>"
proof -
  have h: "CODEDOC_RE ''Doc'' = None" "''Doc'' \<noteq> ''>>''" "COMMENT_RE ''let x = 1'' = None"
    "CLASS_RE ''let x = 1'' = None"
    "METHOD_RE ''let x = 1'' = None \<and> GETTER_RE ''let x = 1'' = None \<and>
     ATTRIBUTE_RE ''let x = 1'' = None"
    "EXPORT_LET_RE ''let x = 1'' = None"
    by code_simp+
  show ?thesis
    using unmatched_comment_block_is_dropped [where line = "''let x = 1''" and ?b0.0 = "''Doc''"
        and bs = "[''more'']"
        and fp = "\<lparr>root = \<lparr>modules = [(''a'', 0)], files = [(''modules/a.rst'', 0)],
               store = [\<lparr>kind = ModuleNode ''a'', contents = [Child 1]\<rparr>,
                        \<lparr>kind = ClassNode 0 ''A'' [], contents = [Text ''doc'']\<rparr>]\<rparr>,
      path = ''src/a.js'', buffer = Some [''Doc'', ''more''], current_class = Some 1,
      last_codedoc = None, post_state = PyClass\<rparr>"] h
    by simp
qed

text \<open>
  C7. Comment lines at the end of a file only fill the buffer. The file ends, the
  processor is dropped with its buffer, and the run goes on from the tree as it was
  before those lines: the result is that of the file without them.
\<close>

theorem trailing_comment_block_is_never_routed:
  assumes "\<forall>l\<in>set cs. COMMENT_RE (strip l) \<noteq> None"
  shows "(case process ls fp of
            Inl e \<Rightarrow> process (ls @ cs) fp = Inl e
          | Inr fp' \<Rightarrow> \<exists>b. process (ls @ cs) fp = Inr (fp'\<lparr>buffer := b\<rparr>)) \<and>
         main_loop ((p, ls @ cs) # fs') r = main_loop ((p, ls) # fs') r \<and>
         main (fs @ (p, ls @ cs) # fs') = main (fs @ (p, ls) # fs')"
proof -
  have one: "main_loop ((p, ls @ cs) # fs') r = main_loop ((p, ls) # fs') r" for r
    using process_trailing_comments [OF assms, of ls "FileProcessor_init p r"]
    by (cases "process ls (FileProcessor_init p r)") auto
  have "main_loop (fs @ (p, ls @ cs) # fs') RootNode_init =
        main_loop (fs @ (p, ls) # fs') RootNode_init"
    unfolding main_loop_append using one by (simp split: sum.splits)
  then show ?thesis
    using process_trailing_comments [OF assms, of ls fp] one by (simp add: main_def)
qed

theorem trailing_comment_block_is_never_routed_witness:
  "main [(''src/a.js'', [''// Doc'', ''class A {'', ''}'', ''// >> notes'', ''// lost'', ''#''])]
   = main [(''src/a.js'', [''// Doc'', ''class A {'', ''}''])] \<and>
   main [(''src/a.js'', [''// Doc'', ''class A {'', ''}''])]
   = Inr (\<lparr>modules = [(''a'', 0)], files = [(''modules/a.rst'', 0)],
            store = [\<lparr>kind = ModuleNode ''a'', contents = [Child 1]\<rparr>,
                     \<lparr>kind = ClassNode 0 ''A'' [], contents = [Text ''Doc'']\<rparr>]\<rparr>,
          [''Modules Index'', ''============='', ''.. toctree::'', ''   :maxdepth: 2'', [],
           ''   a''])"
proof -
  have c: "COMMENT_RE (strip ''// >> notes'') \<noteq> None" "COMMENT_RE (strip ''// lost'') \<noteq> None"
    "COMMENT_RE (strip ''#'') \<noteq> None"
    by code_simp+
  then have h: "\<forall>l\<in>set [''// >> notes'', ''// lost'', ''#'']. COMMENT_RE (strip l) \<noteq> None"
    by simp
  have e: "main [(''src/a.js'', [''// Doc'', ''class A {'', ''}''])]
   = Inr (\<lparr>modules = [(''a'', 0)], files = [(''modules/a.rst'', 0)],
            store = [\<lparr>kind = ModuleNode ''a'', contents = [Child 1]\<rparr>,
                     \<lparr>kind = ClassNode 0 ''A'' [], contents = [Text ''Doc'']\<rparr>]\<rparr>,
          [''Modules Index'', ''============='', ''.. toctree::'', ''   :maxdepth: 2'', [],
           ''   a''])"
    by code_simp
  from trailing_comment_block_is_never_routed [OF h,
      of "[''// Doc'', ''class A {'', ''}'']" "FileProcessor_init ''src/a.js'' RootNode_init"
        "''src/a.js''" "[]" RootNode_init "[]"]
  have "main ([] @ (''src/a.js'', [''// Doc'', ''class A {'', ''}''] @
                     [''// >> notes'', ''// lost'', ''#'']) # [])
        = main ([] @ (''src/a.js'', [''// Doc'', ''class A {'', ''}'']) # [])"
    by blast
  with e show ?thesis
    by simp
qed

text \<open>
  C8 as stated fails for a path with a line feed in it: the search finds nothing and
  \<^verbatim>\<open>match.group(1)\<close> raises.
\<close>

theorem module_name_of_path_with_line_feed:
  "modulename (''src/a'' @ [CHR 0x0A] @ ''b/index.js'') = Inl AttributeError"
  by code_simp

text \<open>
  C8, as the code has it. For a path \<open>src/<p>/index.js\<close> the module name is \<open><p>\<close>, and
  for \<open>src/<p>.js\<close> it is \<open><p>\<close>, without a trailing \<open>/index\<close> if it has one, as long as
  \<open><p>\<close> holds no line feed (the dot of the pattern does not match one). What stands in
  front of \<open>src/\<close> does not matter when it has no \<open>s\<close>, as in \<open>../src/game/index.js\<close>.
\<close>

theorem module_name_of_path:
  assumes "newline \<notin> set p" and "CHR ''s'' \<notin> set pre"
  shows "modulename (pre @ ''src/'' @ p @ ''/index.js'') = Inr p \<and>
         modulename (pre @ ''src/'' @ p @ ''.js'') =
           Inr (if endswith p ''/index'' then take (length p - 6) p else p) \<and>
         (\<not> endswith p ''/index'' \<longrightarrow> modulename (pre @ ''src/'' @ p @ ''.js'') = Inr p)"
proof -
  have "newline \<notin> set (p @ ''/index'')"
    using assms(1) by (simp add: newline_def)
  from MODULE_RE_src [OF this assms(2)]
  have "MODULE_RE (pre @ ''src/'' @ p @ ''/index.js'') = Some (p @ ''/index'')"
    by simp
  then have 1: "modulename (pre @ ''src/'' @ p @ ''/index.js'') = Inr p"
    by (simp add: modulename_def endswith_def)
  have 2: "modulename (pre @ ''src/'' @ p @ ''.js'') =
           Inr (if endswith p ''/index'' then take (length p - 6) p else p)"
    using MODULE_RE_src [OF assms] by (simp add: modulename_def)
  from 1 2 show ?thesis
    by simp
qed

theorem module_name_of_path_witness:
  "modulename ''src/game/index.js'' = Inr ''game'' \<and>
   modulename ''src/game/input.js'' = Inr ''game/input'' \<and>
   modulename ''../src/game/index.js'' = Inr ''game''"
proof -
  have h: "newline \<notin> set ''game''" "newline \<notin> set ''game/input''"
    "CHR ''s'' \<notin> set ''''" "CHR ''s'' \<notin> set ''../''"
    "\<not> endswith ''game/input'' ''/index''"
    by code_simp+
  from module_name_of_path [OF h(1,3)] module_name_of_path [OF h(2,3)]
    module_name_of_path [OF h(1,4)] h(5)
  show ?thesis
    by simp
qed


text \<open>
  C9. The lines of the index behind its five fixed lines are the keys of the module
  dictionary, each behind three spaces, in strictly ascending order of the byte strings.
  A run over the same files in another order ends too, and writes the same index.
\<close>

theorem modules_index_is_sorted_and_order_independent:
  assumes "main fs = Inr (r, idx)"
  shows "drop 5 idx = map (\<lambda>key. ''   '' @ key) (sort (map fst (modules r))) \<and>
         sorted_wrt (<) (sort (map fst (modules r))) \<and>
         set (sort (map fst (modules r))) = fst ` set (modules r) \<and>
         (\<forall>fs'. mset fs' = mset fs \<longrightarrow> (\<exists>r'. main fs' = Inr (r', idx)))"
proof -
  from assms have m: "main_loop fs RootNode_init = Inr r" and idx: "idx = modules_index r"
    by (auto simp: main_def split: sum.splits)
  have d: "distinct (map fst (modules r))"
    using main_loop_distinct_modules [OF m] by (simp add: RootNode_init_def)
  have 1: "drop 5 idx = map (\<lambda>key. ''   '' @ key) (sort (map fst (modules r)))"
    by (simp add: idx modules_index_def)
  have 2: "sorted_wrt (<) (sort (map fst (modules r)))"
    using d by (simp add: strict_sorted_iff)
  have 3: "set (sort (map fst (modules r))) = fst ` set (modules r)"
    by simp
  have 4: "\<exists>r'. main fs' = Inr (r', idx)" if "mset fs' = mset fs" for fs'
  proof -
    from that have "set fs' = set fs"
      by (metis set_mset_mset)
    from main_loop_same_files [OF m this]
    obtain r' where "main_loop fs' RootNode_init = Inr r'"
      and "sort (map fst (modules r')) = sort (map fst (modules r))"
      by blast
    then show ?thesis
      by (simp add: main_def idx modules_index_def)
  qed
  from 1 2 3 4 show ?thesis
    by blast
qed

theorem modules_index_is_sorted_and_order_independent_witness:
  "main [(''src/zeta.js'', [''// Z'', ''class Z {'']),
         (''src/alpha/index.js'', [''// A'', ''export let a = 1'']),
         (''src/mid.js'', [''// M'', ''class M {''])]
   = Inr (\<lparr>modules = [(''zeta'', 0), (''alpha'', 2), (''mid'', 4)],
            files = [(''modules/zeta.rst'', 0), (''modules/alpha.rst'', 2),
                     (''modules/mid.rst'', 4)],
            store = [\<lparr>kind = ModuleNode ''zeta'', contents = [Child 1]\<rparr>,
                     \<lparr>kind = ClassNode 0 ''Z'' [], contents = [Text ''Z'']\<rparr>,
                     \<lparr>kind = ModuleNode ''alpha'', contents = [Child 3]\<rparr>,
                     \<lparr>kind = DataNode 2 ''a'', contents = [Text ''A'']\<rparr>,
                     \<lparr>kind = ModuleNode ''mid'', contents = [Child 5]\<rparr>,
                     \<lparr>kind = ClassNode 4 ''M'' [], contents = [Text ''M'']\<rparr>]\<rparr>,
          [''Modules Index'', ''============='', ''.. toctree::'', ''   :maxdepth: 2'', [],
           ''   alpha'', ''   mid'', ''   zeta'']) \<and>
   (\<exists>r'. main [(''src/mid.js'', [''// M'', ''class M {'']),
                (''src/zeta.js'', [''// Z'', ''class Z {'']),
                (''src/alpha/index.js'', [''// A'', ''export let a = 1''])]
       = Inr (r', [''Modules Index'', ''============='', ''.. toctree::'', ''   :maxdepth: 2'',
                   [], ''   alpha'', ''   mid'', ''   zeta'']))"
proof -
  let ?z = "(''src/zeta.js'', [''// Z'', ''class Z {''])"
  let ?a = "(''src/alpha/index.js'', [''// A'', ''export let a = 1''])"
  let ?m = "(''src/mid.js'', [''// M'', ''class M {''])"
  have h: "main [?z, ?a, ?m]
   = Inr (\<lparr>modules = [(''zeta'', 0), (''alpha'', 2), (''mid'', 4)],
            files = [(''modules/zeta.rst'', 0), (''modules/alpha.rst'', 2),
                     (''modules/mid.rst'', 4)],
            store = [\<lparr>kind = ModuleNode ''zeta'', contents = [Child 1]\<rparr>,
                     \<lparr>kind = ClassNode 0 ''Z'' [], contents = [Text ''Z'']\<rparr>,
                     \<lparr>kind = ModuleNode ''alpha'', contents = [Child 3]\<rparr>,
                     \<lparr>kind = DataNode 2 ''a'', contents = [Text ''A'']\<rparr>,
                     \<lparr>kind = ModuleNode ''mid'', contents = [Child 5]\<rparr>,
                     \<lparr>kind = ClassNode 4 ''M'' [], contents = [Text ''M'']\<rparr>]\<rparr>,
          [''Modules Index'', ''============='', ''.. toctree::'', ''   :maxdepth: 2'', [],
           ''   alpha'', ''   mid'', ''   zeta''])"
    by code_simp
  have p: "mset [?m, ?z, ?a] = mset [?z, ?a, ?m]"
    by (simp add: add_mset_commute)
  from modules_index_is_sorted_and_order_independent [OF h] p
  have "\<exists>r'. main [?m, ?z, ?a]
     = Inr (r', [''Modules Index'', ''============='', ''.. toctree::'', ''   :maxdepth: 2'',
                 [], ''   alpha'', ''   mid'', ''   zeta''])"
    by blast
  with h show ?thesis
    by blast
qed

text \<open>
  C10. When the method rule fires, the name stored in the new MethodNode is group 1 of the
  match: the identifier, the opening parenthesis, the argument text and the closing
  parenthesis. The node's index entry is \<open><module>; <Class>#<identifier>(<args>)\<close> and its
  directive is \<open>js:function:: <identifier>(<args>)\<close>.
\<close>

theorem method_name_is_whole_signature:
  assumes "current_class fp = Some c" and "buffer fp = Some (b0 # bs)"
    and "CODEDOC_RE b0 = None" and "b0 \<noteq> ''>>''" and "METHOD_RE line = Some sig"
    and "c < length (store (root fp))" and "kind (store (root fp) ! c) = ClassNode m cname args"
    and "m < length (store (root fp))" and "kind (store (root fp) ! m) = ModuleNode mname"
  shows "\<exists>ident arglist fp'.
           ident \<noteq> [] \<and> (\<forall>ch\<in>set ident. is_word ch) \<and> newline \<notin> set arglist \<and>
           (line = ident @ ''('' @ arglist @ '') {'' \<or>
            line = ident @ ''('' @ arglist @ '') {'' @ [newline]) \<and>
           sig = ident @ ''('' @ arglist @ '')'' \<and>
           process_line line fp = Inr fp' \<and>
           store (root fp') ! length (store (root fp)) =
             \<lparr>kind = MethodNode c (ident @ ''('' @ arglist @ '')''),
              contents = [Text (join [newline] (b0 # bs))]\<rparr> \<and>
           contents (store (root fp') ! c) =
             contents (store (root fp) ! c) @ [Child (length (store (root fp)))] \<and>
           index (store (root fp')) (length (store (root fp))) =
             Inr (mname @ ''; '' @ cname @ ''#'' @ ident @ ''('' @ arglist @ '')'') \<and>
           directive (store (root fp')) (length (store (root fp))) =
             Inr (''js:function:: '' @ ident @ ''('' @ arglist @ '')'')"
proof -
  from assms(5) obtain w a where w: "w \<noteq> []" "\<forall>ch\<in>set w. is_word ch" and a: "newline \<notin> set a"
    and sig: "sig = w @ ''('' @ a @ '')''"
    and line: "line = sig @ '' {'' \<or> line = sig @ '' {'' @ [newline]"
    unfolding METHOD_RE_iff by blast
  let ?n = "length (store (root fp))"
  let ?r = "add c (Child ?n) (add_text ?n (b0 # bs) (snd (new (MethodNode c sig) (root fp))))"
  let ?fp = "fp\<lparr>root := ?r, post_state := PyNone, buffer := None\<rparr>"
  have step: "process_line line fp = Inr ?fp"
    by (rule process_line_method [OF assms(1-5)])
  have cn: "c \<noteq> ?n" and mn: "m \<noteq> ?n"
    using assms(6,8) by simp_all
  have node: "store ?r ! ?n = \<lparr>kind = MethodNode c sig, contents = [Text (join [newline] (b0 # bs))]\<rparr>"
    using cn by (simp add: add_def add_text_def new_def nth_append)
  have cont: "contents (store ?r ! c) = contents (store (root fp) ! c) @ [Child ?n]"
    using cn assms(6) by (simp add: add_def add_text_def new_def nth_append)
  have idx: "index (store ?r) ?n = Inr (mname @ ''; '' @ cname @ ''#'' @ sig)"
    using assms(6-9)
    by (simp add: index_def node member_index_def module_index_def node_name_def nth_append)
  have dir: "directive (store ?r) ?n = Inr (''js:function:: '' @ sig)"
    by (simp add: directive_def node)
  show ?thesis
    apply (rule exI [of _ w], rule exI [of _ a], rule exI [of _ ?fp])
    using w a sig line step node cont idx dir by simp
qed

theorem method_name_is_whole_signature_witness:
  "\<exists>fp'. process_line ''report(current, total, extra) {''
     \<lparr>root = \<lparr>modules = [(''a'', 0)], files = [(''modules/a.rst'', 0)],
               store = [\<lparr>kind = ModuleNode ''a'', contents = [Child 1]\<rparr>,
                        \<lparr>kind = ClassNode 0 ''A'' [], contents = [Text ''doc'']\<rparr>]\<rparr>,
      path = ''src/a.js'', buffer = Some [''Reports the progress.''], current_class = Some 1,
      last_codedoc = None, post_state = PyClass\<rparr> = Inr fp' \<and>
    store (root fp') ! 2 =
      \<lparr>kind = MethodNode 1 ''report(current, total, extra)'',
       contents = [Text ''Reports the progress.'']\<rparr> \<and>
    index (store (root fp')) 2 = Inr ''a; A#report(current, total, extra)'' \<and>
    directive (store (root fp')) 2 = Inr ''js:function:: report(current, total, extra)''"
proof -
  let ?fp = "\<lparr>root = \<lparr>modules = [(''a'', 0)], files = [(''modules/a.rst'', 0)],
               store = [\<lparr>kind = ModuleNode ''a'', contents = [Child 1]\<rparr>,
                        \<lparr>kind = ClassNode 0 ''A'' [], contents = [Text ''doc'']\<rparr>]\<rparr>,
      path = ''src/a.js'', buffer = Some [''Reports the progress.''], current_class = Some 1,
      last_codedoc = None, post_state = PyClass\<rparr>"
  have h: "CODEDOC_RE ''Reports the progress.'' = None"
    "''Reports the progress.'' \<noteq> ''>>''"
    "METHOD_RE ''report(current, total, extra) {'' = Some ''report(current, total, extra)''"
    by code_simp+
  have "current_class ?fp = Some 1" "buffer ?fp = Some [''Reports the progress.'']"
    "1 < length (store (root ?fp))" "kind (store (root ?fp) ! 1) = ClassNode 0 ''A'' []"
    "0 < length (store (root ?fp))" "kind (store (root ?fp) ! 0) = ModuleNode ''a''"
    by simp_all
  from method_name_is_whole_signature [OF this(1,2) h this(3-6)]
  obtain ident arglist fp' where
    s: "''report(current, total, extra)'' = ident @ ''('' @ arglist @ '')''" and
    r: "process_line ''report(current, total, extra) {'' ?fp = Inr fp'"
      "store (root fp') ! length (store (root ?fp)) =
             \<lparr>kind = MethodNode 1 (ident @ ''('' @ arglist @ '')''),
              contents = [Text (join [newline] [''Reports the progress.''])]\<rparr>"
      "index (store (root fp')) (length (store (root ?fp))) =
             Inr (''a'' @ ''; '' @ ''A'' @ ''#'' @ ident @ ''('' @ arglist @ '')'')"
      "directive (store (root fp')) (length (store (root ?fp))) =
             Inr (''js:function:: '' @ ident @ ''('' @ arglist @ '')'')"
    by blast
  have two: "length (store (root ?fp)) = 2" by simp
  show ?thesis
    using r unfolding s [symmetric] two by (intro exI [of _ fp']) simp
qed

end
